theory Spec2Isabelle
  imports Main "HOL-Library.Word" "HOL-Library.Sublist"
begin

section \<open>The shader reflector of impeller/compiler/reflector.cc\<close>

text \<open>
  A shallow embedding of \<^verbatim>\<open>reflector.cc\<close>. The C++ integer types are words:
  \<^verbatim>\<open>uint32_t\<close> is \<open>32 word\<close> and \<^verbatim>\<open>size_t\<close> is \<open>64 word\<close> (an LP64 host), so
  every \<open>+\<close>, \<open>-\<close> and \<open>*\<close> below wraps as it does in the source, and \<open>div\<close> is the
  unsigned division. A \<^verbatim>\<open>std::optional\<close> is an \<open>option\<close>. A call that does not
  return to its caller (the alias recursion never ends, or \<^verbatim>\<open>FML_CHECK\<close> aborts the
  process) has the value \<open>None\<close> of an outer \<open>option\<close>.
\<close>

subsection \<open>Machine types and host sizes\<close>

type_synonym uint32_t = "32 word"
type_synonym size_t = "64 word"
type_synonym ID = "32 word"

text \<open>\<^verbatim>\<open>sizeof\<close> of the C++ built-in types on the host.\<close>

definition sizeof_bool :: size_t where "sizeof_bool = 1"
definition sizeof_float :: size_t where "sizeof_float = 4"
definition sizeof_uint32_t :: size_t where "sizeof_uint32_t = 4"
definition sizeof_int32_t :: size_t where "sizeof_int32_t = 4"

text \<open>
  Modelled from the spec: the geometry headers (\<^verbatim>\<open>geometry/scalar.h\<close>,
  \<^verbatim>\<open>geometry/matrix.h\<close> and the point and vector types they include) are not among
  the sources. \<^verbatim>\<open>Scalar\<close> is the 32-bit float; the matrix is the native 4x4 float
  matrix (16 floats); the point is 2 floats, the 3-component vector 3 floats
  (packed) and the 4-component vector 4 floats.
\<close>

definition sizeof_Scalar :: size_t where "sizeof_Scalar = 4"
definition sizeof_Matrix :: size_t where "sizeof_Matrix = 64"
definition sizeof_Point :: size_t where "sizeof_Point = 8"
definition sizeof_Vector3 :: size_t where "sizeof_Vector3 = 12"
definition sizeof_Vector4 :: size_t where "sizeof_Vector4 = 16"

subsection \<open>The resolved shader module (the interface of SPIRV-Cross the code uses)\<close>

text \<open>\<^verbatim>\<open>SPIRType::BaseType\<close>; its \<^verbatim>\<open>Int\<close> is \<open>IntType\<close> here.\<close>

datatype BaseType =
  Unknown | Void | Boolean | SByte | UByte | Short | UShort | IntType | UInt | Int64
  | UInt64 | AtomicCounter | Half | Float | Double | Struct | Image | SampledImage
  | Sampler

datatype ExecutionModel =
  ExecutionModelVertex | ExecutionModelFragment | ExecutionModelOther

datatype Decoration =
  DecorationDescriptorSet | DecorationBinding | DecorationLocation | DecorationIndex

text \<open>
  The fields of \<^verbatim>\<open>SPIRType\<close> the code reads; \<^verbatim>\<open>type_alias\<close> is \<open>type_alias_id\<close>.
  The fields \<^verbatim>\<open>id\<close>, \<^verbatim>\<open>type_id\<close> and \<^verbatim>\<open>name\<close> of a \<^verbatim>\<open>Resource\<close> carry the
  prefix \<open>res\<close>.
\<close>

record SPIRType =
  self :: ID
  basetype :: BaseType
  width :: uint32_t
  vecsize :: uint32_t
  columns :: uint32_t
  member_types :: "ID list"
  type_alias_id :: ID

record Resource =
  res_id :: ID
  res_type_id :: ID
  res_name :: string

record EntryPoint =
  entry_name :: string
  execution_model :: ExecutionModel

record ShaderResources =
  res_uniform_buffers :: "Resource list"
  res_stage_inputs :: "Resource list"
  res_stage_outputs :: "Resource list"
  res_sampled_images :: "Resource list"
  res_separate_images :: "Resource list"
  res_separate_samplers :: "Resource list"

text \<open>
  \<^verbatim>\<open>compiler_\<close>: the queries of \<^verbatim>\<open>CompilerMSL\<close> the reflector makes. They are
  parameters of the model; each is a total function, as for the identifiers of a
  well-formed module.
\<close>

record Compiler =
  get_type :: "ID \<Rightarrow> SPIRType"
  get_name :: "ID \<Rightarrow> string"
  get_decoration :: "ID \<Rightarrow> Decoration \<Rightarrow> uint32_t"
  get_automatic_msl_resource_binding :: "ID \<Rightarrow> uint32_t"
  get_automatic_msl_resource_binding_secondary :: "ID \<Rightarrow> uint32_t"
  get_automatic_msl_resource_binding_tertiary :: "ID \<Rightarrow> uint32_t"
  get_automatic_msl_resource_binding_quaternary :: "ID \<Rightarrow> uint32_t"
  get_entry_points_and_stages :: "EntryPoint list"
  get_shader_resources :: ShaderResources

text \<open>
  \<^verbatim>\<open>ir_\<close>: \<open>meta\<close> is the map \<^verbatim>\<open>ir_->meta\<close>, whose entries hold the member
  decorations of a type (of which the code reads \<^verbatim>\<open>alias\<close>, the field
  \<open>member_alias\<close>); \<open>typed_ids\<close> is the sequence of types that
  \<^verbatim>\<open>for_each_typed_id<SPIRType>\<close> hands to its callback.
\<close>

record MemberDecoration =
  member_alias :: string

record Meta =
  meta_members :: "MemberDecoration list"

record ParsedIR =
  meta :: "ID \<Rightarrow> Meta option"
  typed_ids :: "SPIRType list"

record Options =
  opt_shader_name :: string
  opt_header_file_name :: string

subsection \<open>The reflected data\<close>

text \<open>
  Record fields share one name space, so the fields \<^verbatim>\<open>type\<close> and \<^verbatim>\<open>name\<close> of
  \<^verbatim>\<open>StructMember\<close> are \<open>member_type\<close> and \<open>member_name\<close> here, and \<^verbatim>\<open>name\<close> and
  \<^verbatim>\<open>byte_length\<close> of \<^verbatim>\<open>StructDefinition\<close> are \<open>struct_name\<close> and
  \<open>struct_byte_length\<close>. The JSON objects that \<^verbatim>\<open>ReflectType\<close> and
  \<^verbatim>\<open>ReflectResource\<close> build are records with one field per key, and the root object
  is the record \<open>ReflectionDocument\<close>.
\<close>

record StructMember =
  member_type :: string
  member_name :: string
  offset :: size_t
  byte_length :: size_t

record StructDefinition =
  struct_name :: string
  struct_byte_length :: size_t
  members :: "StructMember list"

record TypeJSON =
  type_name :: string
  bit_width :: uint32_t
  vec_size :: uint32_t
  json_columns :: uint32_t

record ResourceJSON =
  json_name :: string
  descriptor_set :: uint32_t
  binding :: uint32_t
  location :: uint32_t
  index :: uint32_t
  msl_res_0 :: uint32_t
  msl_res_1 :: uint32_t
  msl_res_2 :: uint32_t
  msl_res_3 :: uint32_t
  json_type :: TypeJSON

record ReflectionDocument =
  entrypoint :: string
  shader_name :: string
  shader_stage :: string
  header_file_name :: string
  uniform_buffers :: "ResourceJSON list"
  stage_inputs :: "ResourceJSON list"
  sampled_images :: "ResourceJSON list"
  stage_outputs :: "ResourceJSON list"
  struct_definitions :: "StructDefinition list"

subsection \<open>Strings\<close>

text \<open>What \<^verbatim>\<open>operator<<\<close> writes for an unsigned integer: its decimal digits.\<close>

definition digit_char :: "nat \<Rightarrow> char" where
  "digit_char d = ''0123456789'' ! d"

function decimal :: "nat \<Rightarrow> string" where
  "decimal n = (if n < 10 then [digit_char n] else decimal (n div 10) @ [digit_char (n mod 10)])"
  by pat_completeness auto
termination
  by (relation "measure (\<lambda>n. n)") auto

declare decimal.simps [simp del]

text \<open>\<^verbatim>\<open>haystack.find(needle) != std::string::npos\<close>.\<close>

fun str_contains :: "string \<Rightarrow> string \<Rightarrow> bool" where
  "str_contains needle [] = (needle = [])"
| "str_contains needle (c # cs) = (prefix needle (c # cs) \<or> str_contains needle cs)"

fun BaseTypeToString :: "BaseType \<Rightarrow> string" where
  "BaseTypeToString Void = ''ShaderType::kVoid''"
| "BaseTypeToString Boolean = ''ShaderType::kBoolean''"
| "BaseTypeToString SByte = ''ShaderType::kSignedByte''"
| "BaseTypeToString UByte = ''ShaderType::kUnsignedByte''"
| "BaseTypeToString Short = ''ShaderType::kSignedShort''"
| "BaseTypeToString UShort = ''ShaderType::kUnsignedShort''"
| "BaseTypeToString IntType = ''ShaderType::kSignedInt''"
| "BaseTypeToString UInt = ''ShaderType::kUnsignedInt''"
| "BaseTypeToString Int64 = ''ShaderType::kSignedInt64''"
| "BaseTypeToString UInt64 = ''ShaderType::kUnsignedInt64''"
| "BaseTypeToString AtomicCounter = ''ShaderType::kAtomicCounter''"
| "BaseTypeToString Half = ''ShaderType::kHalfFloat''"
| "BaseTypeToString Float = ''ShaderType::kFloat''"
| "BaseTypeToString Double = ''ShaderType::kDouble''"
| "BaseTypeToString Struct = ''ShaderType::kStruct''"
| "BaseTypeToString Image = ''ShaderType::kImage''"
| "BaseTypeToString SampledImage = ''ShaderType::kSampledImage''"
| "BaseTypeToString Sampler = ''ShaderType::kSampler''"
| "BaseTypeToString Unknown = ''ShaderType::kUnknown''"

fun ExecutionModelToString :: "ExecutionModel \<Rightarrow> string" where
  "ExecutionModelToString ExecutionModelVertex = ''vertex''"
| "ExecutionModelToString ExecutionModelFragment = ''fragment''"
| "ExecutionModelToString ExecutionModelOther = ''unsupported''"

definition StringToShaderStage :: "string \<Rightarrow> string" where
  "StringToShaderStage str =
     (if str = ''vertex'' then ''ShaderStage::kVertex''
      else if str = ''fragment'' then ''ShaderStage::kFragment''
      else ''ShaderStage::kUnknown'')"

definition TypeNameWithPaddingOfSize :: "size_t \<Rightarrow> string" where
  "TypeNameWithPaddingOfSize sz = ''Padding<'' @ decimal (unat sz) @ ''>''"

subsection \<open>Resources\<close>

definition ReflectType :: "Compiler \<Rightarrow> ID \<Rightarrow> TypeJSON option" where
  "ReflectType c tid =
     (let type = get_type c tid in
      Some \<lparr>type_name = BaseTypeToString (basetype type),
            bit_width = width type,
            vec_size = vecsize type,
            json_columns = columns type\<rparr>)"

definition ReflectResource :: "Compiler \<Rightarrow> Resource \<Rightarrow> ResourceJSON option" where
  "ReflectResource c resource =
     (case ReflectType c (res_type_id resource) of
        None \<Rightarrow> None
      | Some type \<Rightarrow>
          Some \<lparr>json_name = res_name resource,
                descriptor_set = get_decoration c (res_id resource) DecorationDescriptorSet,
                binding = get_decoration c (res_id resource) DecorationBinding,
                location = get_decoration c (res_id resource) DecorationLocation,
                index = get_decoration c (res_id resource) DecorationIndex,
                msl_res_0 = get_automatic_msl_resource_binding c (res_id resource),
                msl_res_1 = get_automatic_msl_resource_binding_secondary c (res_id resource),
                msl_res_2 = get_automatic_msl_resource_binding_tertiary c (res_id resource),
                msl_res_3 = get_automatic_msl_resource_binding_quaternary c (res_id resource),
                json_type = type\<rparr>)"

text \<open>The loop of \<^verbatim>\<open>ReflectResources\<close>, with \<open>result\<close> as its accumulator.\<close>

fun ReflectResources_loop ::
  "Compiler \<Rightarrow> Resource list \<Rightarrow> ResourceJSON list \<Rightarrow> ResourceJSON list option" where
  "ReflectResources_loop c [] result = Some result"
| "ReflectResources_loop c (resource # resources) result =
     (case ReflectResource c resource of
        Some reflected \<Rightarrow> ReflectResources_loop c resources (result @ [reflected])
      | None \<Rightarrow> None)"

definition ReflectResources :: "Compiler \<Rightarrow> Resource list \<Rightarrow> ResourceJSON list option" where
  "ReflectResources c resources = ReflectResources_loop c resources []"

subsection \<open>Member names\<close>

partial_function (option) GetMemberNameAtIndexIfExists ::
  "Compiler \<Rightarrow> ParsedIR \<Rightarrow> SPIRType \<Rightarrow> nat \<Rightarrow> string option option" where
  "GetMemberNameAtIndexIfExists c ir parent_type i =
     (if type_alias_id parent_type \<noteq> 0
      then GetMemberNameAtIndexIfExists c ir (get_type c (type_alias_id parent_type)) i
      else Some (case meta ir (self parent_type) of
                   None \<Rightarrow> None
                 | Some found \<Rightarrow>
                     if i < length (meta_members found) \<and> member_alias (meta_members found ! i) \<noteq> []
                     then Some (member_alias (meta_members found ! i))
                     else None))"

declare GetMemberNameAtIndexIfExists.simps [code]

text \<open>
  \<^verbatim>\<open>sUnnamedMembersID\<close>, the static atomic counter, is passed in and returned: the
  result is the name and the counter after the call.
\<close>

definition GetMemberNameAtIndex ::
  "Compiler \<Rightarrow> ParsedIR \<Rightarrow> SPIRType \<Rightarrow> nat \<Rightarrow> string \<Rightarrow> size_t \<Rightarrow> (string \<times> size_t) option" where
  "GetMemberNameAtIndex c ir parent_type i sfx sUnnamedMembersID =
     (case GetMemberNameAtIndexIfExists c ir parent_type i of
        None \<Rightarrow> None
      | Some (Some nm) \<Rightarrow> Some (nm, sUnnamedMembersID)
      | Some None \<Rightarrow>
          Some (''unnamed_'' @ decimal (unat sUnnamedMembersID) @ sfx,
                sUnnamedMembersID + 1))"

subsection \<open>Struct layout\<close>

record KnownType =
  known_name :: string
  byte_size :: size_t

fun ReadKnownScalarType :: "BaseType \<Rightarrow> KnownType option" where
  "ReadKnownScalarType Boolean = Some \<lparr>known_name = ''bool'', byte_size = sizeof_bool\<rparr>"
| "ReadKnownScalarType Float = Some \<lparr>known_name = ''Scalar'', byte_size = sizeof_Scalar\<rparr>"
| "ReadKnownScalarType UInt = Some \<lparr>known_name = ''uint32_t'', byte_size = sizeof_uint32_t\<rparr>"
| "ReadKnownScalarType IntType = Some \<lparr>known_name = ''int32_t'', byte_size = sizeof_int32_t\<rparr>"
| "ReadKnownScalarType _ = None"

text \<open>
  \<open>emplace\<close> is the pair of statements every branch of the loop body ends with:
  \<^verbatim>\<open>result.emplace_back(StructMember{type, name, total_byte_length, len})\<close> and
  \<^verbatim>\<open>total_byte_length += len\<close>. The state of the loop is \<open>(result,
  total_byte_length, sUnnamedMembersID)\<close>.
\<close>

type_synonym members_state = "StructMember list \<times> size_t \<times> size_t"

definition emplace ::
  "Compiler \<Rightarrow> ParsedIR \<Rightarrow> SPIRType \<Rightarrow> nat \<Rightarrow> string \<Rightarrow> string \<Rightarrow> size_t \<Rightarrow> members_state
     \<Rightarrow> members_state option" where
  "emplace c ir struct_type i type sfx len st =
     (case st of (result, total_byte_length, n) \<Rightarrow>
        (case GetMemberNameAtIndex c ir struct_type i sfx n of
           None \<Rightarrow> None
         | Some (nm, n') \<Rightarrow>
             Some (result @ [\<lparr>member_type = type, member_name = nm,
                               offset = total_byte_length, byte_length = len\<rparr>],
                   total_byte_length + len, n')))"

text \<open>One iteration of the loop of \<^verbatim>\<open>ReadStructMembers\<close>, for member \<open>i\<close>.\<close>

definition ReadStructMembers_body ::
  "Compiler \<Rightarrow> ParsedIR \<Rightarrow> SPIRType \<Rightarrow> nat \<Rightarrow> ID \<Rightarrow> members_state \<Rightarrow> members_state option" where
  "ReadStructMembers_body c ir struct_type i member_type_id st =
     (let member = get_type c member_type_id in
      if basetype member = Float \<and> ucast (width member) = sizeof_Scalar * 8
         \<and> columns member = 4 \<and> vecsize member = 4
      then emplace c ir struct_type i ''Matrix'' [] sizeof_Matrix st
      else if basetype member = Float \<and> ucast (width member) = sizeof_float * 8
         \<and> columns member = 1 \<and> vecsize member = 2
      then emplace c ir struct_type i ''Point'' [] sizeof_Point st
      else if basetype member = Float \<and> ucast (width member) = sizeof_float * 8
         \<and> columns member = 1 \<and> vecsize member = 3
      then emplace c ir struct_type i ''Vector3'' [] sizeof_Vector3 st
      else if basetype member = Float \<and> ucast (width member) = sizeof_float * 8
         \<and> columns member = 1 \<and> vecsize member = 4
      then emplace c ir struct_type i ''Vector4'' [] sizeof_Vector4 st
      else
        (case ReadKnownScalarType (basetype member) of
           Some known \<Rightarrow>
             if columns member = 1 \<and> vecsize member = 1
             then
               (case emplace c ir struct_type i (known_name known) [] (byte_size known) st of
                  None \<Rightarrow> None
                | Some st' \<Rightarrow>
                    (let padding = ucast (width member div 8) - byte_size known in
                     if padding \<noteq> 0
                     then emplace c ir struct_type i (TypeNameWithPaddingOfSize padding)
                            ''_pad'' padding st'
                     else Some st'))
             else
               (let len = ucast ((width member * columns member * vecsize member) div 8) in
                emplace c ir struct_type i (TypeNameWithPaddingOfSize len) [] len st)
         | None \<Rightarrow>
             (let len = ucast ((width member * columns member * vecsize member) div 8) in
              emplace c ir struct_type i (TypeNameWithPaddingOfSize len) [] len st)))"

fun ReadStructMembers_loop ::
  "Compiler \<Rightarrow> ParsedIR \<Rightarrow> SPIRType \<Rightarrow> nat \<Rightarrow> ID list \<Rightarrow> members_state \<Rightarrow> members_state option" where
  "ReadStructMembers_loop c ir struct_type i [] st = Some st"
| "ReadStructMembers_loop c ir struct_type i (member_type_id # rest) st =
     (case ReadStructMembers_body c ir struct_type i member_type_id st of
        None \<Rightarrow> None
      | Some st' \<Rightarrow> ReadStructMembers_loop c ir struct_type (Suc i) rest st')"

text \<open>
  The members and the counter afterwards; \<open>None\<close> when \<^verbatim>\<open>FML_CHECK\<close> aborts or a
  name lookup does not return.
\<close>

definition ReadStructMembers ::
  "Compiler \<Rightarrow> ParsedIR \<Rightarrow> ID \<Rightarrow> size_t \<Rightarrow> (StructMember list \<times> size_t) option" where
  "ReadStructMembers c ir tid n =
     (let struct_type = get_type c tid in
      if basetype struct_type \<noteq> Struct then None
      else
        (case ReadStructMembers_loop c ir struct_type 0 (member_types struct_type) ([], 0, n) of
           None \<Rightarrow> None
         | Some (result, total_byte_length, n') \<Rightarrow> Some (result, n')))"

text \<open>The loop of \<^verbatim>\<open>ReflectStructDefinition\<close> that adds up \<open>total_size\<close>.\<close>

fun total_size_loop :: "Compiler \<Rightarrow> ID list \<Rightarrow> size_t \<Rightarrow> size_t" where
  "total_size_loop c [] total_size = total_size"
| "total_size_loop c (member_type_id # rest) total_size =
     (let member_type = get_type c member_type_id in
      total_size_loop c rest
        (total_size
         + ucast ((width member_type * vecsize member_type * columns member_type) div 8)))"

definition ReflectStructDefinition ::
  "Compiler \<Rightarrow> ParsedIR \<Rightarrow> ID \<Rightarrow> size_t \<Rightarrow> (StructDefinition option \<times> size_t) option" where
  "ReflectStructDefinition c ir tid n =
     (let type = get_type c tid in
      if basetype type \<noteq> Struct then Some (None, n)
      else
        (let nm = get_name c tid in
         if str_contains ''_RESERVED_IDENTIFIER_'' nm then Some (None, n)
         else
           (let total_size = total_size_loop c (member_types type) 0 in
            case ReadStructMembers c ir tid n of
              None \<Rightarrow> None
            | Some (ms, n') \<Rightarrow>
                Some (Some \<lparr>struct_name = nm, struct_byte_length = total_size,
                            members = ms\<rparr>, n'))))"

text \<open>
  \<^verbatim>\<open>EmitStructDefinition\<close> copies the name, the byte length and, member by member,
  the four fields into a JSON object; the object is modelled by the same records.
\<close>

definition EmitStructDefinition :: "StructDefinition \<Rightarrow> StructDefinition" where
  "EmitStructDefinition struc =
     \<lparr>struct_name = struct_name struc,
      struct_byte_length = struct_byte_length struc,
      members = map (\<lambda>struc_member.
                  \<lparr>member_type = member_type struc_member,
                   member_name = member_name struc_member,
                   offset = offset struc_member,
                   byte_length = byte_length struc_member\<rparr>) (members struc)\<rparr>"

subsection \<open>The per-vertex structure\<close>

record VertexType =
  vertex_type_name :: string
  variable_name :: string
  vertex_byte_length :: size_t

definition VertexTypeFromInputResource :: "Compiler \<Rightarrow> Resource \<Rightarrow> VertexType" where
  "VertexTypeFromInputResource c resource =
     (let type = get_type c (res_type_id resource);
          total_size = (columns type * vecsize type * width type) div 8
      in \<lparr>vertex_type_name =
             (if basetype type = Float \<and> columns type = 1 \<and> vecsize type = 2
                 \<and> ucast (width type) = sizeof_float * 8
              then ''Point''
              else if basetype type = Float \<and> columns type = 1 \<and> vecsize type = 4
                 \<and> ucast (width type) = sizeof_float * 8
              then ''Vector4''
              else if basetype type = Float \<and> columns type = 1 \<and> vecsize type = 3
                 \<and> ucast (width type) = sizeof_float * 8
              then ''Vector3''
              else TypeNameWithPaddingOfSize (ucast total_size)),
           variable_name = res_name resource,
           vertex_byte_length = ucast total_size\<rparr>)"

text \<open>The first loop: the set \<open>locations\<close>, or \<open>None\<close> at a duplicate.\<close>

fun collect_locations ::
  "Compiler \<Rightarrow> Resource list \<Rightarrow> uint32_t set \<Rightarrow> uint32_t set option" where
  "collect_locations c [] locations = Some locations"
| "collect_locations c (input # rest) locations =
     (let loc = get_decoration c (res_id input) DecorationLocation in
      if loc \<in> locations then None
      else collect_locations c rest (insert loc locations))"

text \<open>
  The second loop, over \<open>i = 0, ..., locations.size() - 1\<close>; the \<^verbatim>\<open>size_t\<close> index
  is converted to \<^verbatim>\<open>uint32_t\<close> by \<^verbatim>\<open>count\<close>.
\<close>

fun locations_contiguous :: "uint32_t set \<Rightarrow> nat list \<Rightarrow> bool" where
  "locations_contiguous locations [] = True"
| "locations_contiguous locations (i # rest) =
     (if of_nat i \<notin> locations then False else locations_contiguous locations rest)"

fun input_for_location :: "Compiler \<Rightarrow> Resource list \<Rightarrow> uint32_t \<Rightarrow> Resource option" where
  "input_for_location c [] queried_location = None"
| "input_for_location c (input # rest) queried_location =
     (if get_decoration c (res_id input) DecorationLocation = queried_location
      then Some input
      else input_for_location c rest queried_location)"

fun per_vertex_loop ::
  "Compiler \<Rightarrow> Resource list \<Rightarrow> nat list \<Rightarrow> StructDefinition \<Rightarrow> StructDefinition option" where
  "per_vertex_loop c inputs [] struc = Some struc"
| "per_vertex_loop c inputs (i # rest) struc =
     (case input_for_location c inputs (of_nat i) of
        None \<Rightarrow> None
      | Some resource \<Rightarrow>
          (let vertex_type = VertexTypeFromInputResource c resource;
               member = \<lparr>member_type = vertex_type_name vertex_type,
                         member_name = variable_name vertex_type,
                         offset = struct_byte_length struc,
                         byte_length = vertex_byte_length vertex_type\<rparr>
           in per_vertex_loop c inputs rest
                (struc\<lparr>struct_byte_length :=
                          struct_byte_length struc + vertex_byte_length vertex_type,
                        members := members struc @ [member]\<rparr>)))"

definition ReflectPerVertexStructDefinition ::
  "Compiler \<Rightarrow> Resource list \<Rightarrow> StructDefinition option" where
  "ReflectPerVertexStructDefinition c inputs =
     (if inputs = [] then None
      else
        (case collect_locations c inputs {} of
           None \<Rightarrow> None
         | Some locations \<Rightarrow>
             if \<not> locations_contiguous locations [0..<card locations] then None
             else per_vertex_loop c inputs [0..<card locations]
                    \<lparr>struct_name = ''PerVertexData'', struct_byte_length = 0,
                     members = []\<rparr>))"

subsection \<open>The document\<close>

text \<open>
  The callback of \<^verbatim>\<open>for_each_typed_id\<close>, run over the types in order; the state is
  \<open>(known_structs, struct_definitions, sUnnamedMembersID)\<close>.
\<close>

type_synonym scan_state = "ID set \<times> StructDefinition list \<times> size_t"

fun struct_scan :: "Compiler \<Rightarrow> ParsedIR \<Rightarrow> SPIRType list \<Rightarrow> scan_state \<Rightarrow> scan_state option" where
  "struct_scan c ir [] st = Some st"
| "struct_scan c ir (type # types) (known_structs, defs, n) =
     (if self type \<in> known_structs then struct_scan c ir types (known_structs, defs, n)
      else
        (case ReflectStructDefinition c ir (self type) n of
           None \<Rightarrow> None
         | Some (Some struc, n') \<Rightarrow>
             struct_scan c ir types
               (insert (self type) known_structs, defs @ [EmitStructDefinition struc], n')
         | Some (None, n') \<Rightarrow>
             struct_scan c ir types (insert (self type) known_structs, defs, n')))"

definition GenerateTemplateArguments ::
  "Options \<Rightarrow> Compiler \<Rightarrow> ParsedIR \<Rightarrow> size_t \<Rightarrow> (ReflectionDocument option \<times> size_t) option" where
  "GenerateTemplateArguments options c ir n =
     (let entrypoints = get_entry_points_and_stages c in
      if length entrypoints \<noteq> 1 then Some (None, n)
      else
        (let front = hd entrypoints;
             shader_resources = get_shader_resources c
         in case ReflectResources c (res_uniform_buffers shader_resources) of
              None \<Rightarrow> Some (None, n)
            | Some ubs \<Rightarrow>
        (case ReflectResources c (res_stage_inputs shader_resources) of
              None \<Rightarrow> Some (None, n)
            | Some inputs_json \<Rightarrow>
        (let combined_sampled_images = ReflectResources c (res_sampled_images shader_resources);
             images = ReflectResources c (res_separate_images shader_resources);
             samplers = ReflectResources c (res_separate_samplers shader_resources)
         in if combined_sampled_images = None \<or> images = None \<or> samplers = None
            then Some (None, n)
            else
        (let sampled = the combined_sampled_images @ the images @ the samplers
         in case ReflectResources c (res_stage_outputs shader_resources) of
              None \<Rightarrow> Some (None, n)
            | Some outputs_json \<Rightarrow>
        (let defs0 =
               (if execution_model front = ExecutionModelVertex
                then (case ReflectPerVertexStructDefinition c
                             (res_stage_inputs shader_resources) of
                        Some struc \<Rightarrow> [EmitStructDefinition struc]
                      | None \<Rightarrow> [])
                else [])
         in case struct_scan c ir (typed_ids ir) ({}, defs0, n) of
              None \<Rightarrow> None
            | Some (known_structs, defs, n') \<Rightarrow>
                Some (Some \<lparr>entrypoint = entry_name front,
                            shader_name = opt_shader_name options,
                            shader_stage = ExecutionModelToString (execution_model front),
                            header_file_name = opt_header_file_name options,
                            uniform_buffers = ubs,
                            stage_inputs = inputs_json,
                            sampled_images = sampled,
                            stage_outputs = outputs_json,
                            struct_definitions = defs\<rparr>, n')))))))"

subsection \<open>The reflector object\<close>

text \<open>
  The template engine and the two templates (\<^verbatim>\<open>code_gen_template.h\<close>) are
  parameters: \<open>render\<close> is \<^verbatim>\<open>inja::Environment::render\<close> with the callbacks
  installed, \<open>dump\<close> the JSON serialisation of the document.
\<close>

record Inja =
  render :: "string \<Rightarrow> ReflectionDocument \<Rightarrow> string"
  dump :: "ReflectionDocument \<Rightarrow> string"
  kReflectionHeaderTemplate :: string
  kReflectionCCTemplate :: string

record Reflector =
  template_arguments :: "ReflectionDocument option"
  reflection_header :: "string option"
  reflection_cc :: "string option"
  is_valid :: bool

definition InflateTemplate :: "Inja \<Rightarrow> string \<Rightarrow> ReflectionDocument \<Rightarrow> string option" where
  "InflateTemplate env tmpl args = Some (render env tmpl args)"

definition GenerateReflectionHeader :: "Inja \<Rightarrow> ReflectionDocument \<Rightarrow> string option" where
  "GenerateReflectionHeader env args = InflateTemplate env (kReflectionHeaderTemplate env) args"

definition GenerateReflectionCC :: "Inja \<Rightarrow> ReflectionDocument \<Rightarrow> string option" where
  "GenerateReflectionCC env args = InflateTemplate env (kReflectionCCTemplate env) args"

text \<open>
  The constructor; \<open>ir\<close> and \<open>compiler\<close> are the two shared pointers, \<open>None\<close>
  when null. The result is the object and the counter afterwards.
\<close>

definition new_Reflector ::
  "Inja \<Rightarrow> Options \<Rightarrow> ParsedIR option \<Rightarrow> Compiler option \<Rightarrow> size_t
     \<Rightarrow> (Reflector \<times> size_t) option" where
  "new_Reflector env options ir compiler n =
     (let r = \<lparr>template_arguments = None, reflection_header = None,
               reflection_cc = None, is_valid = False\<rparr>
      in if ir = None \<or> compiler = None then Some (r, n)
         else
           (case GenerateTemplateArguments options (the compiler) (the ir) n of
              None \<Rightarrow> None
            | Some (None, n') \<Rightarrow> Some (r, n')
            | Some (Some args, n') \<Rightarrow>
                (let r1 = r\<lparr>template_arguments := Some args\<rparr>;
                     r2 = r1\<lparr>reflection_header := GenerateReflectionHeader env args\<rparr>
                 in if reflection_header r2 = None then Some (r2, n')
                    else
                      (let r3 = r2\<lparr>reflection_cc := GenerateReflectionCC env args\<rparr>
                       in if reflection_cc r3 = None then Some (r3, n')
                          else Some (r3\<lparr>is_valid := True\<rparr>, n')))))"

definition IsValid :: "Reflector \<Rightarrow> bool" where
  "IsValid r = is_valid r"

definition GetReflectionJSON :: "Inja \<Rightarrow> Reflector \<Rightarrow> string option" where
  "GetReflectionJSON env r =
     (if \<not> is_valid r then None else Some (dump env (the (template_arguments r))))"

definition GetReflectionHeader :: "Reflector \<Rightarrow> string option" where
  "GetReflectionHeader r = reflection_header r"

definition GetReflectionCC :: "Reflector \<Rightarrow> string option" where
  "GetReflectionCC r = reflection_cc r"

subsection \<open>Notions the statements below are phrased in\<close>

text \<open>
  The member alias declared at index \<open>i\<close> of a type that is not an alias: the entry
  of \<open>meta\<close> for the type, if it has a non-empty alias at that index.
\<close>

definition declared_member_alias :: "ParsedIR \<Rightarrow> SPIRType \<Rightarrow> nat \<Rightarrow> string option" where
  "declared_member_alias ir t i =
     (case meta ir (self t) of
        None \<Rightarrow> None
      | Some found \<Rightarrow>
          if i < length (meta_members found) \<and> member_alias (meta_members found ! i) \<noteq> []
          then Some (member_alias (meta_members found ! i))
          else None)"

text \<open>
  The type an alias chain ends in: \<open>underlying_type c k t\<close> follows
  \<open>type_alias_id\<close> from \<open>t\<close> at most \<open>k\<close> times and returns the type whose alias
  identifier is 0, if it reaches one.
\<close>

fun underlying_type :: "Compiler \<Rightarrow> nat \<Rightarrow> SPIRType \<Rightarrow> SPIRType option" where
  "underlying_type c 0 t = (if type_alias_id t = 0 then Some t else None)"
| "underlying_type c (Suc k) t =
     (if type_alias_id t = 0 then Some t
      else underlying_type c k (get_type c (type_alias_id t)))"

text \<open>
  The declared locations of a list of stage inputs, as the 32-bit decoration values
  and as natural numbers.
\<close>

definition declared_locations :: "Compiler \<Rightarrow> Resource list \<Rightarrow> uint32_t list" where
  "declared_locations c inputs =
     map (\<lambda>input. get_decoration c (res_id input) DecorationLocation) inputs"

definition input_locations :: "Compiler \<Rightarrow> Resource list \<Rightarrow> nat list" where
  "input_locations c inputs = map unat (declared_locations c inputs)"

text \<open>
  The identifiers of a sequence in the order of their first occurrence, leaving out
  those already in \<open>known\<close>.
\<close>

fun first_visits :: "ID set \<Rightarrow> ID list \<Rightarrow> ID list" where
  "first_visits known [] = []"
| "first_visits known (i # rest) =
     (if i \<in> known then first_visits known rest
      else i # first_visits (insert i known) rest)"

text \<open>
  Reflecting each identifier of a list, one call of \<open>ReflectStructDefinition\<close> per
  element and with no visited set: a definition is appended when the call yields one.
\<close>

fun reflect_each ::
  "Compiler \<Rightarrow> ParsedIR \<Rightarrow> ID list \<Rightarrow> StructDefinition list \<times> size_t
     \<Rightarrow> (StructDefinition list \<times> size_t) option" where
  "reflect_each c ir [] st = Some st"
| "reflect_each c ir (i # rest) (defs, n) =
     (case ReflectStructDefinition c ir i n of
        None \<Rightarrow> None
      | Some (Some struc, n') \<Rightarrow> reflect_each c ir rest (defs @ [EmitStructDefinition struc], n')
      | Some (None, n') \<Rightarrow> reflect_each c ir rest (defs, n'))"

text \<open>The identifiers for which \<open>ReflectStructDefinition\<close> yields a definition.\<close>

definition reflectable :: "Compiler \<Rightarrow> ID \<Rightarrow> bool" where
  "reflectable c i =
     (basetype (get_type c i) = Struct
      \<and> \<not> str_contains ''_RESERVED_IDENTIFIER_'' (get_name c i))"

text \<open>The definitions the document starts with: the per-vertex structure, if any.\<close>

definition vertex_definitions :: "Compiler \<Rightarrow> StructDefinition list" where
  "vertex_definitions c =
     (if execution_model (hd (get_entry_points_and_stages c)) = ExecutionModelVertex
      then (case ReflectPerVertexStructDefinition c
                   (res_stage_inputs (get_shader_resources c)) of
              Some struc \<Rightarrow> [EmitStructDefinition struc]
            | None \<Rightarrow> [])
      else [])"

text \<open>The sum of the \<open>byte_length\<close> fields of a member list, as a natural number.\<close>

definition sum_byte_lengths :: "StructMember list \<Rightarrow> nat" where
  "sum_byte_lengths ms = sum_list (map (\<lambda>m. unat (byte_length m)) ms)"

text \<open>
  A member list without gaps, in natural numbers: the first offset is 0, and each
  member starts where the one before it ends.
\<close>

fun consecutive :: "StructMember list \<Rightarrow> bool" where
  "consecutive (m1 # m2 # ms) =
     (unat (offset m1) + unat (byte_length m1) = unat (offset m2) \<and> consecutive (m2 # ms))"
| "consecutive ms = True"

definition gap_free :: "StructMember list \<Rightarrow> bool" where
  "gap_free ms = ((ms = [] \<or> offset (hd ms) = 0) \<and> consecutive ms)"

text \<open>
  The natural size of a raw member, \<open>width * vecsize * columns / 8\<close>, computed in
  \<^verbatim>\<open>uint32_t\<close> as the source does.
\<close>

definition natural_size :: "Compiler \<Rightarrow> ID \<Rightarrow> size_t" where
  "natural_size c tid =
     ucast ((width (get_type c tid) * vecsize (get_type c tid) * columns (get_type c tid)) div 8)"

text \<open>
  A member list laid out from offset \<open>k\<close> in the arithmetic of \<^verbatim>\<open>size_t\<close>: each
  offset is the sum, modulo \<open>2^64\<close>, of \<open>k\<close> and the byte lengths before it.
\<close>

fun laid_out_from :: "size_t \<Rightarrow> StructMember list \<Rightarrow> bool" where
  "laid_out_from k [] = True"
| "laid_out_from k (m # ms) = (offset m = k \<and> laid_out_from (k + byte_length m) ms)"

text \<open>
  A raw member that is not a recognized scalar declared narrower than its host
  type: for a recognized scalar with one column and one component, \<open>width div 8\<close>
  is at least the mapped byte size.
\<close>

definition wide_enough :: "Compiler \<Rightarrow> ID \<Rightarrow> bool" where
  "wide_enough c tid =
     (case ReadKnownScalarType (basetype (get_type c tid)) of
        None \<Rightarrow> True
      | Some known \<Rightarrow>
          if columns (get_type c tid) = 1 \<and> vecsize (get_type c tid) = 1
          then byte_size known \<le> ucast (width (get_type c tid) div 8)
          else True)"

text \<open>
  A member list placed from offset \<open>k\<close> in natural numbers: each offset is \<open>k\<close>
  plus the byte lengths before it, with no wrap-around.
\<close>

fun placed_from :: "nat \<Rightarrow> StructMember list \<Rightarrow> bool" where
  "placed_from k [] = True"
| "placed_from k (m # ms) = (unat (offset m) = k \<and> placed_from (k + unat (byte_length m)) ms)"

subsection \<open>Example modules\<close>

text \<open>
  Concrete modules on which the theorems below are evaluated. \<open>plain_type\<close> is a
  scalar, vector or matrix type and \<open>struct_of\<close> a struct type, as the parser of
  SPIRV-Cross fills them in.
\<close>

definition plain_type :: "ID \<Rightarrow> BaseType \<Rightarrow> uint32_t \<Rightarrow> uint32_t \<Rightarrow> uint32_t \<Rightarrow> SPIRType" where
  "plain_type i b w v k =
     \<lparr>self = i, basetype = b, width = w, vecsize = v, columns = k, member_types = [],
      type_alias_id = 0\<rparr>"

definition struct_of :: "ID \<Rightarrow> ID list \<Rightarrow> SPIRType" where
  "struct_of i ms =
     \<lparr>self = i, basetype = Struct, width = 0, vecsize = 1, columns = 1, member_types = ms,
      type_alias_id = 0\<rparr>"

definition no_resources :: ShaderResources where
  "no_resources =
     \<lparr>res_uniform_buffers = [], res_stage_inputs = [], res_stage_outputs = [],
      res_sampled_images = [], res_separate_images = [], res_separate_samplers = []\<rparr>"

text \<open>A module given by its type table and its type names, with no resources.\<close>

definition module_of :: "(ID \<Rightarrow> SPIRType) \<Rightarrow> (ID \<Rightarrow> string) \<Rightarrow> Compiler" where
  "module_of types names =
     \<lparr>get_type = types, get_name = names, get_decoration = (\<lambda>i d. 0),
      get_automatic_msl_resource_binding = (\<lambda>i. 0),
      get_automatic_msl_resource_binding_secondary = (\<lambda>i. 0),
      get_automatic_msl_resource_binding_tertiary = (\<lambda>i. 0),
      get_automatic_msl_resource_binding_quaternary = (\<lambda>i. 0),
      get_entry_points_and_stages =
        [\<lparr>entry_name = ''main'', execution_model = ExecutionModelFragment\<rparr>],
      get_shader_resources = no_resources\<rparr>"

text \<open>
  A vertex shader: the uniform block \<open>Uniforms {mat4 mvp; float scale; bool on}\<close>
  (the boolean declared at 32 bits), the inputs \<open>position\<close> (a \<open>vec2\<close> at location
  0) and \<open>color\<close> (a \<open>vec4\<close> at location 1), a combined image sampler, a separate
  image and a separate sampler. Type 10 is a second type object of the same struct
  (its \<open>self\<close> is 1), so the type sequence yields struct 1 twice. Type 12 is an
  alias of type 11, which is an alias of struct 1.
\<close>

definition demo_types :: "ID \<Rightarrow> SPIRType" where
  "demo_types i =
     (if i = 1 then struct_of 1 [2, 3, 4]
      else if i = 2 then plain_type 2 Float 32 4 4
      else if i = 3 then plain_type 3 Float 32 1 1
      else if i = 4 then plain_type 4 Boolean 32 1 1
      else if i = 5 then plain_type 5 Float 32 2 1
      else if i = 6 then plain_type 6 Float 32 4 1
      else if i = 7 then plain_type 7 SampledImage 32 1 1
      else if i = 8 then plain_type 8 Image 32 1 1
      else if i = 9 then plain_type 9 Sampler 32 1 1
      else if i = 10 then struct_of 1 [2, 3, 4]
      else if i = 11 then (struct_of 11 [2, 3, 4])\<lparr>type_alias_id := 1\<rparr>
      else if i = 12 then (struct_of 12 [2, 3, 4])\<lparr>type_alias_id := 11\<rparr>
      else plain_type i Unknown 0 1 1)"

definition demo_resources :: ShaderResources where
  "demo_resources =
     \<lparr>res_uniform_buffers = [\<lparr>res_id = 20, res_type_id = 1, res_name = ''uniforms''\<rparr>],
      res_stage_inputs =
        [\<lparr>res_id = 22, res_type_id = 6, res_name = ''color''\<rparr>,
         \<lparr>res_id = 21, res_type_id = 5, res_name = ''position''\<rparr>],
      res_stage_outputs = [],
      res_sampled_images = [\<lparr>res_id = 23, res_type_id = 7, res_name = ''tex''\<rparr>],
      res_separate_images = [\<lparr>res_id = 24, res_type_id = 8, res_name = ''img''\<rparr>],
      res_separate_samplers = [\<lparr>res_id = 25, res_type_id = 9, res_name = ''smp''\<rparr>]\<rparr>"

definition demo_compiler :: Compiler where
  "demo_compiler =
     (module_of demo_types (\<lambda>i. if i = 1 then ''Uniforms'' else []))
       \<lparr>get_decoration := (\<lambda>i d. if d = DecorationLocation \<and> i = 22 then 1 else 0),
        get_entry_points_and_stages :=
          [\<lparr>entry_name = ''main'', execution_model = ExecutionModelVertex\<rparr>],
        get_shader_resources := demo_resources\<rparr>"

definition demo_ir :: ParsedIR where
  "demo_ir =
     \<lparr>meta = (\<lambda>i. if i = 1
                 then Some \<lparr>meta_members = [\<lparr>member_alias = ''mvp''\<rparr>, \<lparr>member_alias = ''scale''\<rparr>]\<rparr>
                 else None),
      typed_ids = map demo_types [3, 2, 4, 1, 5, 6, 10, 7, 8, 9]\<rparr>"

definition demo_options :: Options where
  "demo_options = \<lparr>opt_shader_name = ''demo'', opt_header_file_name = ''demo.vert.h''\<rparr>"

text \<open>A template engine that returns the template text unchanged.\<close>

definition demo_inja :: Inja where
  "demo_inja =
     \<lparr>render = (\<lambda>tmpl args. tmpl), dump = (\<lambda>args. entrypoint args),
      kReflectionHeaderTemplate = ''header'', kReflectionCCTemplate = ''cc''\<rparr>"

text \<open>The vertex shader with its entry point removed.\<close>

definition no_entry_compiler :: Compiler where
  "no_entry_compiler = demo_compiler\<lparr>get_entry_points_and_stages := []\<rparr>"

text \<open>
  A fragment shader whose only struct has a reserved name; the type sequence yields
  it twice.
\<close>

definition reserved_compiler :: Compiler where
  "reserved_compiler =
     module_of (\<lambda>i. if i = 1 then struct_of 1 [2] else plain_type i Float 32 1 1)
       (\<lambda>i. if i = 1 then ''_RESERVED_IDENTIFIER_FIXUP_gl_PerVertex'' else [])"

definition reserved_ir :: ParsedIR where
  "reserved_ir = \<lparr>meta = (\<lambda>i. None), typed_ids = [struct_of 1 [2], struct_of 1 [2]]\<rparr>"

text \<open>
  A fragment shader with structs that have boolean members. Type 10 is a boolean
  of width 1, type 14 a boolean declared at 12 bits. The structs are \<open>Flags {bool}\<close>, \<open>Block {mat4; bool; vec4}\<close>,
  \<open>Pair {bool; float}\<close> and \<open>Odd {bool}\<close> (the 12-bit boolean).
\<close>

definition narrow_types :: "ID \<Rightarrow> SPIRType" where
  "narrow_types i =
     (if i = 1 then struct_of 1 [10]
      else if i = 2 then struct_of 2 [11, 10, 12]
      else if i = 3 then struct_of 3 [10, 13]
      else if i = 4 then struct_of 4 [14]
      else if i = 10 then plain_type 10 Boolean 1 1 1
      else if i = 11 then plain_type 11 Float 32 4 4
      else if i = 12 then plain_type 12 Float 32 4 1
      else if i = 13 then plain_type 13 Float 32 1 1
      else if i = 14 then plain_type 14 Boolean 12 1 1
      else plain_type i Unknown 0 1 1)"

definition narrow_compiler :: Compiler where
  "narrow_compiler =
     module_of narrow_types
       (\<lambda>i. if i = 1 then ''Flags'' else if i = 2 then ''Block''
            else if i = 3 then ''Pair'' else if i = 4 then ''Odd'' else [])"

definition narrow_ir :: ParsedIR where
  "narrow_ir = \<lparr>meta = (\<lambda>i. None), typed_ids = map narrow_types [1, 2, 3, 4]\<rparr>"

section \<open>Evaluation on concrete modules\<close>

lemmas host_sizes =
  sizeof_bool_def sizeof_Scalar_def sizeof_float_def sizeof_uint32_t_def sizeof_int32_t_def
  sizeof_Matrix_def sizeof_Point_def sizeof_Vector3_def sizeof_Vector4_def

lemmas eval_defs =
  ReflectStructDefinition_def ReadStructMembers_def ReadStructMembers_body_def emplace_def
  GetMemberNameAtIndex_def GetMemberNameAtIndexIfExists.simps host_sizes
  TypeNameWithPaddingOfSize_def decimal.simps digit_char_def
  unsigned_minus_1_eq_mask mask_eq_exp_minus_1
  plain_type_def struct_of_def no_resources_def module_of_def
  GenerateTemplateArguments_def ReflectResources_def ReflectResource_def ReflectType_def
  ReflectPerVertexStructDefinition_def VertexTypeFromInputResource_def
  EmitStructDefinition_def Let_def

lemmas demo_defs =
  demo_types_def demo_resources_def demo_compiler_def demo_ir_def demo_options_def

lemmas narrow_defs = narrow_types_def narrow_compiler_def narrow_ir_def

section \<open>Resource reflection\<close>

lemma ReflectType_Some:
  "ReflectType c tid =
     Some \<lparr>type_name = BaseTypeToString (basetype (get_type c tid)),
           bit_width = width (get_type c tid),
           vec_size = vecsize (get_type c tid),
           json_columns = columns (get_type c tid)\<rparr>"
  by (simp add: ReflectType_def Let_def)

lemma ReflectResource_Some: "\<exists>j. ReflectResource c r = Some j"
  by (simp add: ReflectResource_def ReflectType_Some)

lemma ReflectResources_loop_map:
  "map Some js = map (ReflectResource c) rs0 \<Longrightarrow>
   \<exists>js'. ReflectResources_loop c rs js = Some js'
         \<and> map Some js' = map (ReflectResource c) (rs0 @ rs)"
proof (induction rs arbitrary: js rs0)
  case Nil
  then show ?case by simp
next
  case (Cons r rs)
  obtain j where j: "ReflectResource c r = Some j"
    using ReflectResource_Some by blast
  have "map Some (js @ [j]) = map (ReflectResource c) (rs0 @ [r])"
    using Cons.prems j by simp
  from Cons.IH [OF this] show ?case
    using j by simp
qed

lemma ReflectResources_map:
  "\<exists>js. ReflectResources c rs = Some js \<and> map Some js = map (ReflectResource c) rs"
  using ReflectResources_loop_map [of "[]" c "[]" rs] by (simp add: ReflectResources_def)

text \<open>
  Claim C10. \<open>ReflectType\<close> returns a type descriptor for every type identifier, so
  \<open>ReflectResource\<close> never takes its failure branch and returns an object for every
  resource, and \<open>ReflectResources\<close> returns a list, with one object per resource, for
  every resource list.
\<close>

theorem ReflectResources_never_fails:
  "(\<exists>t. ReflectType c tid = Some t) \<and> (\<exists>j. ReflectResource c r = Some j)
   \<and> (\<exists>js. ReflectResources c rs = Some js \<and> length js = length rs)"
proof -
  obtain js where "ReflectResources c rs = Some js"
    and "map Some js = map (ReflectResource c) rs"
    using ReflectResources_map by blast
  then have "ReflectResources c rs = Some js \<and> length js = length rs"
    by (metis length_map)
  then show ?thesis
    using ReflectType_Some ReflectResource_Some by blast
qed

section \<open>Document assembly\<close>

text \<open>
  Claim C7. In every document that \<open>GenerateTemplateArguments\<close> returns, the list
  \<open>sampled_images\<close> is the reflection, resource by resource and in this order, of
  the combined sampled images, then the separate images, then the separate samplers
  of the module: each category keeps its own order, and the categories are never
  interleaved.
\<close>

theorem sampled_images_order:
  assumes "GenerateTemplateArguments options c ir n = Some (Some doc, n')"
  shows "map Some (sampled_images doc) =
         map (ReflectResource c)
           (res_sampled_images (get_shader_resources c)
            @ res_separate_images (get_shader_resources c)
            @ res_separate_samplers (get_shader_resources c))"
proof -
  let ?sr = "get_shader_resources c"
  obtain a where a: "ReflectResources c (res_sampled_images ?sr) = Some a"
      "map Some a = map (ReflectResource c) (res_sampled_images ?sr)"
    using ReflectResources_map by blast
  obtain b where b: "ReflectResources c (res_separate_images ?sr) = Some b"
      "map Some b = map (ReflectResource c) (res_separate_images ?sr)"
    using ReflectResources_map by blast
  obtain s where s: "ReflectResources c (res_separate_samplers ?sr) = Some s"
      "map Some s = map (ReflectResource c) (res_separate_samplers ?sr)"
    using ReflectResources_map by blast
  have "sampled_images doc = a @ b @ s"
    using assms a(1) b(1) s(1)
    by (auto simp: GenerateTemplateArguments_def Let_def
        split: if_splits option.splits prod.splits)
  then show ?thesis
    using a(2) b(2) s(2) by simp
qed

theorem sampled_images_order_witness:
  "\<exists>doc n'. GenerateTemplateArguments demo_options demo_compiler demo_ir 0 = Some (Some doc, n')
     \<and> map json_name (sampled_images doc) = [''tex'', ''img'', ''smp'']"
proof -
  obtain doc n' where
    h: "GenerateTemplateArguments demo_options demo_compiler demo_ir 0 = Some (Some doc, n')"
    by (simp add: eval_defs demo_defs)
  have "map Some (sampled_images doc) =
        map (ReflectResource demo_compiler)
          (res_sampled_images (get_shader_resources demo_compiler)
           @ res_separate_images (get_shader_resources demo_compiler)
           @ res_separate_samplers (get_shader_resources demo_compiler))"
    by (rule sampled_images_order [OF h])
  then have "map Some (map json_name (sampled_images doc)) = map Some [''tex'', ''img'', ''smp'']"
    by (simp add: eval_defs demo_defs map_eq_Cons_conv)
  then have "map json_name (sampled_images doc) = [''tex'', ''img'', ''smp'']"
    by (simp add: map_eq_Cons_conv)
  with h show ?thesis
    by (intro exI [of _ doc] exI [of _ n'] conjI)
qed

text \<open>
  Claim C8. If the module does not have exactly one entry point,
  \<open>GenerateTemplateArguments\<close> returns no document, whatever the resources of the
  module are and with the name counter untouched; the constructed \<open>Reflector\<close> is
  then not valid and holds no document, no header and no implementation artifact.
\<close>

theorem entry_point_count_fatal:
  assumes "length (get_entry_points_and_stages c) \<noteq> 1"
  shows "GenerateTemplateArguments options c ir n = Some (None, n)
     \<and> (\<exists>r. new_Reflector env options (Some ir) (Some c) n = Some (r, n)
            \<and> \<not> IsValid r \<and> template_arguments r = None
            \<and> GetReflectionHeader r = None \<and> GetReflectionCC r = None
            \<and> GetReflectionJSON env r = None)"
proof -
  have g: "GenerateTemplateArguments options c ir n = Some (None, n)"
    using assms by (simp add: GenerateTemplateArguments_def)
  then show ?thesis
    by (simp add: new_Reflector_def IsValid_def GetReflectionHeader_def GetReflectionCC_def
        GetReflectionJSON_def)
qed

theorem entry_point_count_fatal_witness:
  "length (get_entry_points_and_stages no_entry_compiler) \<noteq> 1
   \<and> GenerateTemplateArguments demo_options no_entry_compiler demo_ir 0 = Some (None, 0)
   \<and> (\<exists>r. new_Reflector demo_inja demo_options (Some demo_ir) (Some no_entry_compiler) 0
            = Some (r, 0)
          \<and> \<not> IsValid r \<and> GetReflectionHeader r = None \<and> GetReflectionCC r = None)"
proof -
  have h: "length (get_entry_points_and_stages no_entry_compiler) \<noteq> 1"
    by (simp add: no_entry_compiler_def)
  show ?thesis
    using h entry_point_count_fatal [OF h, of demo_options demo_ir 0 demo_inja] by auto
qed

section \<open>Member names\<close>

lemma GetMemberNameAtIndexIfExists_underlying:
  "underlying_type c k t = Some u \<Longrightarrow>
   GetMemberNameAtIndexIfExists c ir t i = Some (declared_member_alias ir u i)"
proof (induction k arbitrary: t)
  case 0
  then show ?case
    by (subst GetMemberNameAtIndexIfExists.simps)
       (simp add: declared_member_alias_def split: if_splits)
next
  case (Suc k)
  show ?case
  proof (cases "type_alias_id t = 0")
    case True
    with Suc.prems show ?thesis
      by (subst GetMemberNameAtIndexIfExists.simps) (simp add: declared_member_alias_def)
  next
    case False
    with Suc.prems have "underlying_type c k (get_type c (type_alias_id t)) = Some u"
      by simp
    from Suc.IH [OF this] False show ?thesis
      by (subst GetMemberNameAtIndexIfExists.simps) simp
  qed
qed

lemma GetMemberNameAtIndexIfExists_returns_only_on_finite_chain:
  assumes "GetMemberNameAtIndexIfExists c ir t i = Some r"
  shows "\<exists>k u. underlying_type c k t = Some u"
proof (rule GetMemberNameAtIndexIfExists.raw_induct
    [where P = "\<lambda>c ir t i r. \<exists>k u. underlying_type c k t = Some u", OF _ assms])
  fix f :: "Compiler \<Rightarrow> ParsedIR \<Rightarrow> SPIRType \<Rightarrow> nat \<Rightarrow> string option option"
    and c :: Compiler and ir :: ParsedIR and t :: SPIRType and i :: nat and r
  assume 1: "\<And>c ir t i r. f c ir t i = Some r \<Longrightarrow> \<exists>k u. underlying_type c k t = Some u"
    "(if type_alias_id t \<noteq> 0 then f c ir (get_type c (type_alias_id t)) i
      else Some (case meta ir (self t) of
                   None \<Rightarrow> None
                 | Some found \<Rightarrow>
                     if i < length (meta_members found) \<and> member_alias (meta_members found ! i) \<noteq> []
                     then Some (member_alias (meta_members found ! i))
                     else None)) = Some r"
  show "\<exists>k u. underlying_type c k t = Some u"
  proof (cases "type_alias_id t = 0")
    case True
    then have "underlying_type c 0 t = Some t" by simp
    then show ?thesis by blast
  next
    case False
    with 1(2) have "f c ir (get_type c (type_alias_id t)) i = Some r"
      by simp
    from 1(1) [OF this] obtain k u
      where "underlying_type c k (get_type c (type_alias_id t)) = Some u"
      by blast
    with False have "underlying_type c (Suc k) t = Some u" by simp
    then show ?thesis by blast
  qed
qed

text \<open>
  Claim C9. If the alias chain of a type is finite and ends in a type \<open>u\<close> whose
  alias identifier is 0, then \<open>GetMemberNameAtIndexIfExists\<close> returns: the lookup
  is forwarded through the aliases to \<open>u\<close>, and the result is the member alias
  declared for \<open>u\<close> at that index when there is one and no name otherwise.
  \<open>GetMemberNameAtIndex\<close> then returns too, with that alias, or with a synthesized
  name and the counter advanced.
\<close>

theorem member_name_lookup_terminates:
  assumes "underlying_type c k t = Some u"
  shows "GetMemberNameAtIndexIfExists c ir t i = Some (declared_member_alias ir u i)
     \<and> GetMemberNameAtIndex c ir t i sfx n =
         Some (case declared_member_alias ir u i of
                 Some nm \<Rightarrow> (nm, n)
               | None \<Rightarrow> (''unnamed_'' @ decimal (unat n) @ sfx, n + 1))"
  using GetMemberNameAtIndexIfExists_underlying [OF assms, of ir i]
  by (simp add: GetMemberNameAtIndex_def split: option.splits)


theorem member_name_lookup_terminates_witness:
  "underlying_type demo_compiler (Suc (Suc 0)) (demo_types 12) = Some (demo_types 1)
   \<and> GetMemberNameAtIndexIfExists demo_compiler demo_ir (demo_types 12) 1 = Some (Some ''scale'')
   \<and> GetMemberNameAtIndex demo_compiler demo_ir (demo_types 12) 2 ''_pad'' 7
        = Some (''unnamed_7_pad'', 8)"
proof -
  have h: "underlying_type demo_compiler (Suc (Suc 0)) (demo_types 12) = Some (demo_types 1)"
    by (simp add: demo_defs eval_defs)
  have a1: "declared_member_alias demo_ir (demo_types 1) 1 = Some ''scale''"
    by (simp add: declared_member_alias_def demo_defs eval_defs)
  have a2: "declared_member_alias demo_ir (demo_types 1) 2 = None"
    by (simp add: declared_member_alias_def demo_defs eval_defs)
  show ?thesis
    using h a1 a2
      member_name_lookup_terminates [OF h, of demo_ir 1 "''_pad''" 7]
      member_name_lookup_terminates [OF h, of demo_ir 2 "''_pad''" 7]
    by (simp add: decimal.simps digit_char_def)
qed

section \<open>The per-vertex structure\<close>

lemma declared_locations_simps:
  "declared_locations c [] = []"
  "declared_locations c (input # rest) =
     get_decoration c (res_id input) DecorationLocation # declared_locations c rest"
  by (simp_all add: declared_locations_def)

lemma length_declared_locations: "length (declared_locations c inputs) = length inputs"
  by (simp add: declared_locations_def)

lemma distinct_map_unat: "distinct (map unat (ws :: uint32_t list)) = distinct ws"
  by (auto simp: distinct_map inj_on_def word_unat_eq_iff)

lemma collect_locations_eq:
  "collect_locations c inputs S =
     (if distinct (declared_locations c inputs) \<and> set (declared_locations c inputs) \<inter> S = {}
      then Some (S \<union> set (declared_locations c inputs)) else None)"
  by (induction inputs arbitrary: S) (auto simp: Let_def declared_locations_simps)

lemma locations_contiguous_eq:
  "locations_contiguous S xs = (\<forall>i\<in>set xs. of_nat i \<in> S)"
  by (induction xs) auto

lemma input_for_location_None:
  "(input_for_location c inputs q = None) = (q \<notin> set (declared_locations c inputs))"
  by (induction inputs) (auto simp: declared_locations_simps)

lemma input_for_location_Some:
  "input_for_location c inputs q = Some r \<Longrightarrow>
   r \<in> set inputs \<and> get_decoration c (res_id r) DecorationLocation = q"
  by (induction inputs) (auto split: if_splits)

lemma per_vertex_loop_None:
  "(per_vertex_loop c inputs xs struc = None) =
   (\<exists>i\<in>set xs. of_nat i \<notin> set (declared_locations c inputs))"
proof (induction xs arbitrary: struc)
  case Nil
  then show ?case by simp
next
  case (Cons i xs)
  show ?case
  proof (cases "input_for_location c inputs (of_nat i)")
    case None
    then show ?thesis
      using input_for_location_None [of c inputs "of_nat i"] by simp
  next
    case (Some r)
    then have "of_nat i \<in> set (declared_locations c inputs)"
      using input_for_location_None [of c inputs "of_nat i"] by simp
    then show ?thesis
      using Some Cons.IH by (simp add: Let_def)
  qed
qed

lemma card_word32_le: "card (S :: uint32_t set) \<le> 2 ^ 32"
proof -
  have "card S \<le> card (UNIV :: uint32_t set)"
    by (rule card_mono) simp_all
  then show ?thesis by (simp add: card_word)
qed

lemma contiguous_words_iff:
  fixes S :: "uint32_t set"
  assumes "card S = k"
  shows "(\<forall>i<k. of_nat i \<in> S) = (unat ` S = {0..<k})"
proof
  assume all: "\<forall>i<k. of_nat i \<in> S"
  have fin: "finite S" by simp
  have k: "k \<le> 2 ^ 32" using assms card_word32_le [of S] by simp
  have inj: "inj_on (of_nat :: nat \<Rightarrow> uint32_t) {0..<k}"
  proof (rule inj_onI)
    fix x y assume xy: "x \<in> {0..<k}" "y \<in> {0..<k}" "(of_nat x :: uint32_t) = of_nat y"
    then have "unat (of_nat x :: uint32_t) = unat (of_nat y :: uint32_t)" by simp
    moreover have "x < 2 ^ 32" "y < 2 ^ 32" using xy k by auto
    ultimately show "x = y" by (simp add: unat_of_nat)
  qed
  have sub: "of_nat ` {0..<k} \<subseteq> S" using all by auto
  have "card ((of_nat :: nat \<Rightarrow> uint32_t) ` {0..<k}) = k"
    using inj by (simp add: card_image)
  with sub fin assms have eq: "of_nat ` {0..<k} = S"
    by (simp add: card_subset_eq)
  have "unat ` ((of_nat :: nat \<Rightarrow> uint32_t) ` {0..<k}) = {0..<k}"
  proof -
    have "\<And>i. i < k \<Longrightarrow> unat (of_nat i :: uint32_t) = i"
      using k by (simp add: unat_of_nat)
    then show ?thesis by (force simp: image_iff)
  qed
  with eq show "unat ` S = {0..<k}" by simp
next
  assume eq: "unat ` S = {0..<k}"
  show "\<forall>i<k. of_nat i \<in> S"
  proof (intro allI impI)
    fix i assume "i < k"
    then have "i \<in> unat ` S" using eq by simp
    then obtain w where "w \<in> S" "unat w = i" by auto
    then show "of_nat i \<in> S" by auto
  qed
qed

lemma ReflectPerVertexStructDefinition_None:
  "(ReflectPerVertexStructDefinition c inputs = None) =
   (inputs = [] \<or> \<not> distinct (declared_locations c inputs)
    \<or> (\<exists>i<length inputs. of_nat i \<notin> set (declared_locations c inputs)))"
proof (cases "inputs \<noteq> [] \<and> distinct (declared_locations c inputs)")
  case False
  then show ?thesis
    by (auto simp: ReflectPerVertexStructDefinition_def collect_locations_eq)
next
  case True
  then have card: "card (set (declared_locations c inputs)) = length inputs"
    using distinct_card [of "declared_locations c inputs"]
    by (simp add: length_declared_locations)
  show ?thesis
    using True card
    by (auto simp: ReflectPerVertexStructDefinition_def collect_locations_eq
        locations_contiguous_eq per_vertex_loop_None)
qed

text \<open>
  Claim C3. \<open>ReflectPerVertexStructDefinition\<close> returns a structure if and only if
  the list of stage inputs is not empty and the declared locations of its \<open>k\<close>
  inputs are pairwise different and form exactly the set \<open>{0, ..., k - 1}\<close>. An
  empty list, a duplicate location or a gap yields no result.
\<close>

theorem per_vertex_iff_contiguous_locations:
  "(ReflectPerVertexStructDefinition c inputs \<noteq> None) =
   (inputs \<noteq> [] \<and> distinct (input_locations c inputs)
    \<and> set (input_locations c inputs) = {0..<length inputs})"
proof -
  have il: "input_locations c inputs = map unat (declared_locations c inputs)"
    by (simp add: input_locations_def)
  have d: "distinct (input_locations c inputs) = distinct (declared_locations c inputs)"
    unfolding il by (rule distinct_map_unat)
  show ?thesis
  proof (cases "distinct (declared_locations c inputs)")
    case False
    then show ?thesis using d by (simp add: ReflectPerVertexStructDefinition_None)
  next
    case True
    then have card: "card (set (declared_locations c inputs)) = length inputs"
      using distinct_card [of "declared_locations c inputs"]
      by (simp add: length_declared_locations)
    have "(\<forall>i<length inputs. of_nat i \<in> set (declared_locations c inputs))
          = (unat ` set (declared_locations c inputs) = {0..<length inputs})"
      by (rule contiguous_words_iff [OF card])
    moreover have "set (input_locations c inputs) = unat ` set (declared_locations c inputs)"
      unfolding il by simp
    ultimately show ?thesis
      using True d by (auto simp: ReflectPerVertexStructDefinition_None)
  qed
qed

theorem per_vertex_iff_contiguous_locations_witness:
  "input_locations demo_compiler (res_stage_inputs demo_resources) = [1, 0]
   \<and> ReflectPerVertexStructDefinition demo_compiler (res_stage_inputs demo_resources) \<noteq> None"
proof -
  have l: "input_locations demo_compiler (res_stage_inputs demo_resources) = [1, 0]"
    by (simp add: input_locations_def declared_locations_def demo_defs eval_defs)
  have "set [1, 0 :: nat] = {0..<length (res_stage_inputs demo_resources)}"
    by (auto simp: demo_resources_def)
  then show ?thesis
    using l per_vertex_iff_contiguous_locations
      [of demo_compiler "res_stage_inputs demo_resources"]
    by (simp add: demo_resources_def)
qed

text \<open>The rejected location sets: a gap, a duplicate, and the empty list.\<close>

lemma per_vertex_rejects:
  "ReflectPerVertexStructDefinition
     (demo_compiler\<lparr>get_decoration := (\<lambda>i d. if i = 22 then 2 else 0)\<rparr>)
     (res_stage_inputs demo_resources) = None"
  "ReflectPerVertexStructDefinition
     (demo_compiler\<lparr>get_decoration := (\<lambda>i d. if i = 22 then 1 else 0)\<rparr>)
     (\<lparr>res_id = 26, res_type_id = 5, res_name = ''normal''\<rparr> # res_stage_inputs demo_resources)
     = None"
  "ReflectPerVertexStructDefinition demo_compiler [] = None"
  by (simp_all add: ReflectPerVertexStructDefinition_def demo_defs eval_defs)

section \<open>Deduplication of struct definitions\<close>

lemma first_visits_set: "set (first_visits known ids) = set ids - known"
  by (induction known ids rule: first_visits.induct) auto

lemma first_visits_distinct: "distinct (first_visits known ids)"
  by (induction known ids rule: first_visits.induct) (auto simp: first_visits_set)

lemma struct_scan_reflect_each:
  "struct_scan c ir types (known, defs, n) =
     (case reflect_each c ir (first_visits known (map self types)) (defs, n) of
        None \<Rightarrow> None
      | Some (defs', n') \<Rightarrow> Some (known \<union> set (map self types), defs', n'))"
proof (induction types arbitrary: known defs n)
  case Nil
  then show ?case by simp
next
  case (Cons t types)
  show ?case
  proof (cases "self t \<in> known")
    case True
    then have "known \<union> set (map self (t # types)) = known \<union> set (map self types)"
      by auto
    with True Cons.IH [of known defs n] show ?thesis
      by (auto split: option.splits prod.splits)
  next
    case False
    have u: "insert (self t) known \<union> set (map self types) = known \<union> set (map self (t # types))"
      by auto
    show ?thesis
      using False u
      by (auto simp: Cons.IH split: option.splits prod.splits)
  qed
qed

lemma ReflectStructDefinition_result:
  "ReflectStructDefinition c ir i n = Some (r, n') \<Longrightarrow> (r \<noteq> None) = reflectable c i"
  by (auto simp: ReflectStructDefinition_def reflectable_def Let_def
      split: if_splits option.splits prod.splits)

lemma reflect_each_appends:
  "reflect_each c ir ids (defs, n) = Some (defs', n') \<Longrightarrow>
   \<exists>new. defs' = defs @ new \<and> length new = length (filter (reflectable c) ids)"
proof (induction ids arbitrary: defs n)
  case Nil
  then show ?case by simp
next
  case (Cons i ids)
  from Cons.prems obtain r n1 where r: "ReflectStructDefinition c ir i n = Some (r, n1)"
    by (auto split: option.splits)
  show ?case
  proof (cases r)
    case None
    with r Cons.prems have "reflect_each c ir ids (defs, n1) = Some (defs', n')" by simp
    from Cons.IH [OF this] ReflectStructDefinition_result [OF r] None
    show ?thesis by simp
  next
    case (Some struc)
    with r Cons.prems
    have "reflect_each c ir ids (defs @ [EmitStructDefinition struc], n1) = Some (defs', n')"
      by simp
    from Cons.IH [OF this] ReflectStructDefinition_result [OF r] Some
    show ?thesis by auto
  qed
qed

lemma GenerateTemplateArguments_struct_scan:
  assumes "GenerateTemplateArguments options c ir n = Some (Some doc, n')"
  shows "\<exists>known. struct_scan c ir (typed_ids ir) ({}, vertex_definitions c, n)
           = Some (known, struct_definitions doc, n')"
  using assms
  by (auto simp: GenerateTemplateArguments_def vertex_definitions_def Let_def
      split: if_splits option.splits prod.splits)

text \<open>
  Claim C6, as amended. Within one document build \<open>ReflectStructDefinition\<close> is
  called exactly once for every identifier that the type sequence yields, in the
  order of first occurrence: the struct definitions of the document are those of
  the per-vertex synthesis followed by the result of reflecting each distinct
  identifier once. An identifier that is yielded several times therefore contributes
  at most one definition: exactly one when it is a struct whose name does not contain
  the reserved-identifier marker, and none otherwise.
\<close>

theorem struct_identifiers_reflected_once:
  assumes "GenerateTemplateArguments options c ir n = Some (Some doc, n')"
  shows "reflect_each c ir (first_visits {} (map self (typed_ids ir))) (vertex_definitions c, n)
           = Some (struct_definitions doc, n')
     \<and> distinct (first_visits {} (map self (typed_ids ir)))
     \<and> set (first_visits {} (map self (typed_ids ir))) = set (map self (typed_ids ir))
     \<and> (\<exists>new. struct_definitions doc = vertex_definitions c @ new
            \<and> length new
              = length (filter (reflectable c) (first_visits {} (map self (typed_ids ir)))))"
proof -
  let ?ids = "first_visits {} (map self (typed_ids ir))"
  obtain known where
    "struct_scan c ir (typed_ids ir) ({}, vertex_definitions c, n)
       = Some (known, struct_definitions doc, n')"
    using GenerateTemplateArguments_struct_scan [OF assms] by blast
  then have r: "reflect_each c ir ?ids (vertex_definitions c, n) = Some (struct_definitions doc, n')"
    by (simp add: struct_scan_reflect_each split: option.splits prod.splits)
  from reflect_each_appends [OF r] show ?thesis
    using r by (simp add: first_visits_distinct first_visits_set)
qed

theorem struct_identifiers_reflected_once_witness:
  "\<exists>doc n'. GenerateTemplateArguments demo_options demo_compiler demo_ir 0 = Some (Some doc, n')
     \<and> count_list (map self (typed_ids demo_ir)) 1 = 2
     \<and> first_visits {} (map self (typed_ids demo_ir)) = [3, 2, 4, 1, 5, 6, 7, 8, 9]
     \<and> length (struct_definitions doc) = 2"
proof -
  obtain doc n' where
    h: "GenerateTemplateArguments demo_options demo_compiler demo_ir 0 = Some (Some doc, n')"
    by (simp add: eval_defs demo_defs)
  have ids: "first_visits {} (map self (typed_ids demo_ir)) = [3, 2, 4, 1, 5, 6, 7, 8, 9]"
    by (simp add: demo_defs eval_defs)
  have f: "filter (reflectable demo_compiler) [3, 2, 4, 1, 5, 6, 7, 8, 9] = [1]"
    by (simp add: reflectable_def demo_defs eval_defs)
  have v: "length (vertex_definitions demo_compiler) = 1"
    by (simp add: vertex_definitions_def demo_defs eval_defs)
  have "length (struct_definitions doc) = 2"
    using struct_identifiers_reflected_once [OF h] ids f v by auto
  moreover have "count_list (map self (typed_ids demo_ir)) 1 = 2"
    by (simp add: demo_defs eval_defs)
  ultimately show ?thesis
    using h ids by (intro exI [of _ doc] exI [of _ n'] conjI)
qed

text \<open>
  The claim as stated fails on a struct with a reserved name: the type sequence
  yields struct 1 twice, and no definition of it is in the document.
\<close>

theorem reserved_struct_counterexample:
  "map self (typed_ids reserved_ir) = [1, 1]
   \<and> basetype (get_type reserved_compiler 1) = Struct
   \<and> GenerateTemplateArguments demo_options reserved_compiler reserved_ir 0 =
       Some (Some \<lparr>entrypoint = ''main'', shader_name = ''demo'', shader_stage = ''fragment'',
                   header_file_name = ''demo.vert.h'', uniform_buffers = [], stage_inputs = [],
                   sampled_images = [], stage_outputs = [], struct_definitions = []\<rparr>, 0)"
  by (simp add: reserved_compiler_def reserved_ir_def demo_options_def eval_defs)

section \<open>Struct layout\<close>

lemma emplace_Some:
  "emplace c ir st i ty sfx len (res, tot, n) = Some s' \<Longrightarrow>
   \<exists>nm n1. GetMemberNameAtIndex c ir st i sfx n = Some (nm, n1)
     \<and> s' = (res @ [\<lparr>member_type = ty, member_name = nm, offset = tot, byte_length = len\<rparr>],
             tot + len, n1)"
  by (auto simp: emplace_def split: option.splits)

lemma unat_ucast_32_64: "unat (ucast (w :: uint32_t) :: size_t) = unat w"
proof -
  have "unat w < 2 ^ 32" using unsigned_less [of w] by simp
  then have "unat w < 2 ^ 64" by simp
  then show ?thesis by (simp add: unsigned_ucast_eq take_bit_nat_eq_self)
qed

lemma ucast_eq_32: "((ucast (w :: uint32_t) :: size_t) = 32) = (w = 32)"
proof
  assume "(ucast w :: size_t) = 32"
  then have "unat (ucast w :: size_t) = 32" by simp
  then have "unat w = 32" by (simp add: unat_ucast_32_64)
  then show "w = 32" by (simp add: word_unat_eq_iff)
qed simp

lemma unat_natural_size_bound: "unat (natural_size c tid) < 2 ^ 29"
proof -
  let ?p = "width (get_type c tid) * vecsize (get_type c tid) * columns (get_type c tid)"
  have "unat ?p < 2 ^ 32" using unsigned_less [of ?p] by simp
  then show ?thesis by (simp add: natural_size_def unat_ucast_32_64 unat_div)
qed

text \<open>The outcomes of one iteration: one member, or a scalar and its padding.\<close>

lemma ReadStructMembers_body_cases:
  assumes "ReadStructMembers_body c ir st i tid (res, tot, n) = Some s'"
  shows "(\<exists>ty nm n1 len.
            s' = (res @ [\<lparr>member_type = ty, member_name = nm, offset = tot,
                            byte_length = len\<rparr>], tot + len, n1)
            \<and> len = natural_size c tid)
       \<or> (\<exists>known nm nm_pad n2 pad.
            ReadKnownScalarType (basetype (get_type c tid)) = Some known
            \<and> columns (get_type c tid) = 1 \<and> vecsize (get_type c tid) = 1
            \<and> pad = ucast (width (get_type c tid) div 8) - byte_size known
            \<and> pad \<noteq> 0
            \<and> s' = (res @ [\<lparr>member_type = known_name known, member_name = nm, offset = tot,
                              byte_length = byte_size known\<rparr>,
                            \<lparr>member_type = TypeNameWithPaddingOfSize pad, member_name = nm_pad,
                              offset = tot + byte_size known, byte_length = pad\<rparr>],
                    tot + byte_size known + pad, n2))"
proof -
  let ?m = "get_type c tid"
  consider (matrix) "basetype ?m = Float" "width ?m = 32" "columns ?m = 4" "vecsize ?m = 4"
    | (point) "basetype ?m = Float" "width ?m = 32" "columns ?m = 1" "vecsize ?m = 2"
    | (vector3) "basetype ?m = Float" "width ?m = 32" "columns ?m = 1" "vecsize ?m = 3"
    | (vector4) "basetype ?m = Float" "width ?m = 32" "columns ?m = 1" "vecsize ?m = 4"
    | (scalar) known where "ReadKnownScalarType (basetype ?m) = Some known"
        "columns ?m = 1" "vecsize ?m = 1"
    | (other) "\<not> (basetype ?m = Float \<and> width ?m = 32 \<and> columns ?m = 4 \<and> vecsize ?m = 4)"
        "\<not> (basetype ?m = Float \<and> width ?m = 32 \<and> columns ?m = 1 \<and> vecsize ?m = 2)"
        "\<not> (basetype ?m = Float \<and> width ?m = 32 \<and> columns ?m = 1 \<and> vecsize ?m = 3)"
        "\<not> (basetype ?m = Float \<and> width ?m = 32 \<and> columns ?m = 1 \<and> vecsize ?m = 4)"
        "ReadKnownScalarType (basetype ?m) = None \<or> \<not> (columns ?m = 1 \<and> vecsize ?m = 1)"
    by (cases "ReadKnownScalarType (basetype ?m)") auto
  then show ?thesis
  proof cases
    case matrix
    with assms have "emplace c ir st i ''Matrix'' [] sizeof_Matrix (res, tot, n) = Some s'"
      by (simp add: ReadStructMembers_body_def host_sizes)
    from emplace_Some [OF this] matrix show ?thesis
      by (auto simp: natural_size_def host_sizes)
  next
    case point
    with assms have "emplace c ir st i ''Point'' [] sizeof_Point (res, tot, n) = Some s'"
      by (simp add: ReadStructMembers_body_def host_sizes)
    from emplace_Some [OF this] point show ?thesis
      by (auto simp: natural_size_def host_sizes)
  next
    case vector3
    with assms have "emplace c ir st i ''Vector3'' [] sizeof_Vector3 (res, tot, n) = Some s'"
      by (simp add: ReadStructMembers_body_def host_sizes)
    from emplace_Some [OF this] vector3 show ?thesis
      by (auto simp: natural_size_def host_sizes)
  next
    case vector4
    with assms have "emplace c ir st i ''Vector4'' [] sizeof_Vector4 (res, tot, n) = Some s'"
      by (simp add: ReadStructMembers_body_def host_sizes)
    from emplace_Some [OF this] vector4 show ?thesis
      by (auto simp: natural_size_def host_sizes)
  next
    case scalar
    let ?pad = "ucast (width ?m div 8) - byte_size known :: size_t"
    from assms scalar obtain s1 where
      e1: "emplace c ir st i (known_name known) [] (byte_size known) (res, tot, n) = Some s1"
      and rest: "(if ?pad \<noteq> 0
                  then emplace c ir st i (TypeNameWithPaddingOfSize ?pad) ''_pad'' ?pad s1
                  else Some s1) = Some s'"
      by (auto simp: ReadStructMembers_body_def Let_def split: option.splits if_splits)
    from emplace_Some [OF e1] obtain nm n1 where
      s1: "s1 = (res @ [\<lparr>member_type = known_name known, member_name = nm, offset = tot,
                          byte_length = byte_size known\<rparr>], tot + byte_size known, n1)"
      by blast
    show ?thesis
    proof (cases "?pad = 0")
      case True
      then have "byte_size known = natural_size c tid"
        using scalar by (simp add: natural_size_def)
      with True rest s1 show ?thesis by auto
    next
      case False
      with rest have
        "emplace c ir st i (TypeNameWithPaddingOfSize ?pad) ''_pad'' ?pad s1 = Some s'"
        by simp
      from emplace_Some [OF this [unfolded s1]] False scalar show ?thesis
        by auto
    qed
  next
    case other
    let ?len = "natural_size c tid"
    have len: "ucast ((width ?m * columns ?m * vecsize ?m) div 8) = ?len"
      by (simp add: natural_size_def mult_ac)
    from assms other
    have "emplace c ir st i (TypeNameWithPaddingOfSize ?len) [] ?len (res, tot, n) = Some s'"
      unfolding len [symmetric]
      by (auto simp: ReadStructMembers_body_def Let_def host_sizes ucast_eq_32
          split: option.splits if_splits)
    from emplace_Some [OF this] show ?thesis by auto
  qed
qed

subsection \<open>The layout in the arithmetic of the source\<close>

lemma laid_out_from_append:
  "laid_out_from k (xs @ ys) =
     (laid_out_from k xs \<and> laid_out_from (k + sum_list (map byte_length xs)) ys)"
  by (induction xs arbitrary: k) (auto simp: add.assoc)

lemma ReadStructMembers_body_layout:
  assumes "ReadStructMembers_body c ir st i tid (res, tot, n) = Some (res', tot', n')"
  shows "\<exists>new. res' = res @ new \<and> laid_out_from tot new
           \<and> tot' = tot + natural_size c tid
           \<and> sum_list (map byte_length new) = natural_size c tid"
  using ReadStructMembers_body_cases [OF assms]
proof (elim disjE exE conjE)
  fix ty nm n1 len
  assume "(res', tot', n') =
            (res @ [\<lparr>member_type = ty, member_name = nm, offset = tot, byte_length = len\<rparr>],
             tot + len, n1)"
    and "len = natural_size c tid"
  then show ?thesis by simp
next
  fix known nm nm_pad n2 pad
  assume k: "columns (get_type c tid) = 1" "vecsize (get_type c tid) = 1"
    and p: "pad = ucast (width (get_type c tid) div 8) - byte_size known"
    and s: "(res', tot', n') =
       (res @ [\<lparr>member_type = known_name known, member_name = nm, offset = tot,
                 byte_length = byte_size known\<rparr>,
               \<lparr>member_type = TypeNameWithPaddingOfSize pad, member_name = nm_pad,
                 offset = tot + byte_size known, byte_length = pad\<rparr>],
        tot + byte_size known + pad, n2)"
  have "byte_size known + pad = natural_size c tid"
    using k p by (simp add: natural_size_def)
  with s show ?thesis by (auto simp: add.assoc)
qed

lemma ReadStructMembers_loop_layout:
  "ReadStructMembers_loop c ir st i tids (res, tot, n) = Some (res', tot', n') \<Longrightarrow>
   \<exists>new. res' = res @ new \<and> laid_out_from tot new
     \<and> tot' = tot + sum_list (map (natural_size c) tids)
     \<and> sum_list (map byte_length new) = sum_list (map (natural_size c) tids)"
proof (induction tids arbitrary: i res tot n)
  case Nil
  then show ?case by simp
next
  case (Cons tid tids)
  from Cons.prems obtain res1 tot1 n1 where
    b: "ReadStructMembers_body c ir st i tid (res, tot, n) = Some (res1, tot1, n1)"
    and l: "ReadStructMembers_loop c ir st (Suc i) tids (res1, tot1, n1) = Some (res', tot', n')"
    by (auto split: option.splits)
  from ReadStructMembers_body_layout [OF b] obtain new1 where
    1: "res1 = res @ new1" "laid_out_from tot new1" "tot1 = tot + natural_size c tid"
       "sum_list (map byte_length new1) = natural_size c tid"
    by blast
  from Cons.IH [OF l] obtain new2 where
    2: "res' = res1 @ new2" "laid_out_from tot1 new2"
       "tot' = tot1 + sum_list (map (natural_size c) tids)"
       "sum_list (map byte_length new2) = sum_list (map (natural_size c) tids)"
    by blast
  have "res' = res @ (new1 @ new2)" using 1 2 by simp
  moreover have "laid_out_from tot (new1 @ new2)"
    using 1 2 by (simp add: laid_out_from_append)
  moreover have "tot' = tot + sum_list (map (natural_size c) (tid # tids))"
    using 1 2 by (simp add: add.assoc)
  moreover have "sum_list (map byte_length (new1 @ new2))
                 = sum_list (map (natural_size c) (tid # tids))"
    using 1 2 by simp
  ultimately show ?case by blast
qed

lemma total_size_loop_sum:
  "total_size_loop c tids acc = acc + sum_list (map (natural_size c) tids)"
  by (induction tids arbitrary: acc) (simp_all add: natural_size_def Let_def add.assoc)

text \<open>
  In the arithmetic of \<^verbatim>\<open>size_t\<close>, that is modulo \<open>2^64\<close>, the byte length of
  every reflected struct is the sum of its members' byte lengths, and the members
  are laid out one after another from offset 0.
\<close>

lemma ReflectStructDefinition_layout_mod:
  assumes "ReflectStructDefinition c ir tid n = Some (Some struc, n')"
  shows "struct_byte_length struc = sum_list (map byte_length (members struc))
     \<and> laid_out_from 0 (members struc)"
proof -
  let ?st = "get_type c tid"
  from assms obtain ms where
    ms: "ReadStructMembers c ir tid n = Some (ms, n')"
    and struc: "struc = \<lparr>struct_name = get_name c tid,
                         struct_byte_length = total_size_loop c (member_types ?st) 0,
                         members = ms\<rparr>"
    by (auto simp: ReflectStructDefinition_def Let_def split: if_splits option.splits)
  from ms obtain tot where
    "ReadStructMembers_loop c ir ?st 0 (member_types ?st) ([], 0, n) = Some (ms, tot, n')"
    by (auto simp: ReadStructMembers_def Let_def split: if_splits option.splits)
  from ReadStructMembers_loop_layout [OF this] struc show ?thesis
    by (simp add: total_size_loop_sum)
qed

subsection \<open>The layout in natural numbers\<close>

lemma sum_byte_lengths_simps:
  "sum_byte_lengths [] = 0"
  "sum_byte_lengths (m # ms) = unat (byte_length m) + sum_byte_lengths ms"
  "sum_byte_lengths (xs @ ys) = sum_byte_lengths xs + sum_byte_lengths ys"
  by (simp_all add: sum_byte_lengths_def)

lemma placed_from_append:
  "placed_from k (xs @ ys) = (placed_from k xs \<and> placed_from (k + sum_byte_lengths xs) ys)"
  by (induction xs arbitrary: k) (auto simp: sum_byte_lengths_simps add.assoc)

lemma placed_from_gap_free: "placed_from 0 ms \<Longrightarrow> gap_free ms"
proof -
  have "placed_from k ms \<Longrightarrow> consecutive ms" for k
    by (induction ms arbitrary: k rule: consecutive.induct) auto
  moreover have "placed_from 0 ms \<Longrightarrow> ms = [] \<or> offset (hd ms) = 0"
    by (cases ms) (auto simp: unat_eq_0)
  ultimately show "placed_from 0 ms \<Longrightarrow> gap_free ms"
    by (simp add: gap_free_def)
qed

lemma unat_add_no_wrap:
  "unat (a :: size_t) + unat b < 2 ^ 64 \<Longrightarrow> unat (a + b) = unat a + unat b"
  using unat_add_lem [of a b] by simp

lemma ReadStructMembers_body_placed:
  assumes run: "ReadStructMembers_body c ir st i tid (res, tot, n) = Some (res', tot', n')"
    and wide: "wide_enough c tid"
    and fits: "unat tot + unat (natural_size c tid) < 2 ^ 64"
  shows "\<exists>new. res' = res @ new \<and> placed_from (unat tot) new
           \<and> unat tot' = unat tot + unat (natural_size c tid)
           \<and> sum_byte_lengths new = unat (natural_size c tid)"
  using ReadStructMembers_body_cases [OF run]
proof (elim disjE exE conjE)
  fix ty nm n1 len
  assume "(res', tot', n') =
            (res @ [\<lparr>member_type = ty, member_name = nm, offset = tot, byte_length = len\<rparr>],
             tot + len, n1)"
    and "len = natural_size c tid"
  then show ?thesis
    using fits by (simp add: sum_byte_lengths_simps unat_add_no_wrap)
next
  fix known nm nm_pad n2 pad
  let ?w = "ucast (width (get_type c tid) div 8) :: size_t"
  assume kn: "ReadKnownScalarType (basetype (get_type c tid)) = Some known"
    and k: "columns (get_type c tid) = 1" "vecsize (get_type c tid) = 1"
    and p: "pad = ?w - byte_size known"
    and s: "(res', tot', n') =
       (res @ [\<lparr>member_type = known_name known, member_name = nm, offset = tot,
                 byte_length = byte_size known\<rparr>,
               \<lparr>member_type = TypeNameWithPaddingOfSize pad, member_name = nm_pad,
                 offset = tot + byte_size known, byte_length = pad\<rparr>],
        tot + byte_size known + pad, n2)"
  have le: "byte_size known \<le> ?w"
    using wide kn k by (simp add: wide_enough_def)
  have nat: "natural_size c tid = ?w"
    using k by (simp add: natural_size_def)
  have upad: "unat pad = unat ?w - unat (byte_size known)"
    using le p by (simp add: unat_sub)
  have ule: "unat (byte_size known) \<le> unat ?w"
    using le by (simp add: word_le_nat_alt)
  have u1: "unat (tot + byte_size known) = unat tot + unat (byte_size known)"
    using fits ule nat by (intro unat_add_no_wrap) simp
  have e: "tot + byte_size known + pad = tot + ?w"
    using p by simp
  have "unat (tot + ?w) = unat tot + unat ?w"
    using fits nat by (intro unat_add_no_wrap) simp
  then have u2: "unat (tot + byte_size known + pad) = unat tot + unat ?w"
    by (simp only: e)
  show ?thesis
    using s u1 u2 upad ule nat
    by (auto simp: sum_byte_lengths_simps)
qed

lemma ReadStructMembers_loop_placed:
  "ReadStructMembers_loop c ir st i tids (res, tot, n) = Some (res', tot', n') \<Longrightarrow>
   \<forall>tid\<in>set tids. wide_enough c tid \<Longrightarrow>
   unat tot + sum_list (map (\<lambda>tid. unat (natural_size c tid)) tids) < 2 ^ 64 \<Longrightarrow>
   \<exists>new. res' = res @ new \<and> placed_from (unat tot) new
     \<and> unat tot' = unat tot + sum_list (map (\<lambda>tid. unat (natural_size c tid)) tids)
     \<and> sum_byte_lengths new = sum_list (map (\<lambda>tid. unat (natural_size c tid)) tids)"
proof (induction tids arbitrary: i res tot n)
  case Nil
  then show ?case by (simp add: sum_byte_lengths_simps)
next
  case (Cons tid tids)
  let ?rest = "sum_list (map (\<lambda>tid. unat (natural_size c tid)) tids)"
  from Cons.prems(1) obtain res1 tot1 n1 where
    b: "ReadStructMembers_body c ir st i tid (res, tot, n) = Some (res1, tot1, n1)"
    and l: "ReadStructMembers_loop c ir st (Suc i) tids (res1, tot1, n1) = Some (res', tot', n')"
    by (auto split: option.splits)
  have fits1: "unat tot + unat (natural_size c tid) < 2 ^ 64"
    using Cons.prems(3) by simp
  from ReadStructMembers_body_placed [OF b _ fits1] Cons.prems(2) obtain new1 where
    1: "res1 = res @ new1" "placed_from (unat tot) new1"
       "unat tot1 = unat tot + unat (natural_size c tid)"
       "sum_byte_lengths new1 = unat (natural_size c tid)"
    by auto
  have fits2: "unat tot1 + ?rest < 2 ^ 64"
    using Cons.prems(3) 1(3) by simp
  from Cons.IH [OF l _ fits2] Cons.prems(2) obtain new2 where
    2: "res' = res1 @ new2" "placed_from (unat tot1) new2"
       "unat tot' = unat tot1 + ?rest" "sum_byte_lengths new2 = ?rest"
    by auto
  have "res' = res @ (new1 @ new2)" using 1 2 by simp
  moreover have "placed_from (unat tot) (new1 @ new2)"
    using 1 2 by (simp add: placed_from_append)
  moreover have "unat tot' = unat tot + sum_list (map (\<lambda>tid. unat (natural_size c tid)) (tid # tids))"
    using 1 2 by simp
  moreover have "sum_byte_lengths (new1 @ new2)
                 = sum_list (map (\<lambda>tid. unat (natural_size c tid)) (tid # tids))"
    using 1 2 by (simp add: sum_byte_lengths_simps)
  ultimately show ?case by blast
qed

lemma sum_natural_sizes_bound:
  "sum_list (map (\<lambda>tid. unat (natural_size c tid)) tids) \<le> length tids * 2 ^ 29"
proof (induction tids)
  case Nil
  then show ?case by simp
next
  case (Cons tid tids)
  have "unat (natural_size c tid) \<le> 2 ^ 29"
    using unat_natural_size_bound [of c tid] by simp
  with Cons show ?case by simp
qed

lemma total_size_loop_nat:
  "unat acc + sum_list (map (\<lambda>tid. unat (natural_size c tid)) tids) < 2 ^ 64 \<Longrightarrow>
   unat (total_size_loop c tids acc)
     = unat acc + sum_list (map (\<lambda>tid. unat (natural_size c tid)) tids)"
proof (induction tids arbitrary: acc)
  case Nil
  then show ?case by simp
next
  case (Cons tid tids)
  have 1: "unat (acc + natural_size c tid) = unat acc + unat (natural_size c tid)"
    using Cons.prems by (intro unat_add_no_wrap) simp
  have "unat (total_size_loop c tids (acc + natural_size c tid))
        = unat (acc + natural_size c tid)
          + sum_list (map (\<lambda>tid. unat (natural_size c tid)) tids)"
    using Cons.prems 1 by (intro Cons.IH) simp
  then show ?case
    using 1 by (simp add: natural_size_def Let_def)
qed

text \<open>
  What the layout claims promise does hold for every struct with fewer than \<open>2^32\<close>
  members none of which is a recognized scalar declared narrower than its host
  type: the byte length is the sum of the members' byte lengths, in natural
  numbers, and the member list has no gaps.
\<close>

lemma ReflectStructDefinition_layout_wide:
  assumes run: "ReflectStructDefinition c ir tid n = Some (Some struc, n')"
    and wide: "\<forall>m\<in>set (member_types (get_type c tid)). wide_enough c m"
    and count: "length (member_types (get_type c tid)) < 2 ^ 32"
  shows "sum_byte_lengths (members struc) = unat (struct_byte_length struc)
     \<and> gap_free (members struc)"
proof -
  let ?st = "get_type c tid"
  let ?sum = "sum_list (map (\<lambda>tid. unat (natural_size c tid)) (member_types ?st))"
  have "?sum \<le> length (member_types ?st) * 2 ^ 29"
    by (rule sum_natural_sizes_bound)
  also have "\<dots> < 2 ^ 32 * 2 ^ 29"
    using count by simp
  finally have fits: "?sum < 2 ^ 64" by simp
  from run obtain ms where
    ms: "ReadStructMembers c ir tid n = Some (ms, n')"
    and struc: "struc = \<lparr>struct_name = get_name c tid,
                         struct_byte_length = total_size_loop c (member_types ?st) 0,
                         members = ms\<rparr>"
    by (auto simp: ReflectStructDefinition_def Let_def split: if_splits option.splits)
  from ms obtain tot where
    l: "ReadStructMembers_loop c ir ?st 0 (member_types ?st) ([], 0, n) = Some (ms, tot, n')"
    by (auto simp: ReadStructMembers_def Let_def split: if_splits option.splits)
  from ReadStructMembers_loop_placed [OF l wide] fits
  have "placed_from 0 ms" "sum_byte_lengths ms = ?sum"
    by auto
  moreover have "unat (total_size_loop c (member_types ?st) 0) = ?sum"
    using total_size_loop_nat [of 0 c "member_types ?st"] fits by simp
  ultimately show ?thesis
    using struc by (simp add: placed_from_gap_free)
qed

subsection \<open>Recognized scalars\<close>

lemma ReadStructMembers_loop_grows:
  "ReadStructMembers_loop c ir st i tids (res, tot, n) = Some (res', tot', n') \<Longrightarrow>
   \<exists>new. res' = res @ new"
  using ReadStructMembers_loop_layout by blast

lemma ReadStructMembers_loop_append:
  "ReadStructMembers_loop c ir st i (xs @ ys) s =
     (case ReadStructMembers_loop c ir st i xs s of
        None \<Rightarrow> None
      | Some s' \<Rightarrow> ReadStructMembers_loop c ir st (i + length xs) ys s')"
  by (induction xs arbitrary: i s) (auto split: option.splits)

lemma ReadStructMembers_body_known_scalar:
  assumes known: "ReadKnownScalarType (basetype (get_type c tid)) = Some known"
    and shape: "columns (get_type c tid) = 1" "vecsize (get_type c tid) = 1"
    and wide: "byte_size known \<le> ucast (width (get_type c tid) div 8)"
    and run: "ReadStructMembers_body c ir st i tid (res, tot, n) = Some s'"
  shows "\<exists>nm n1.
     GetMemberNameAtIndex c ir st i [] n = Some (nm, n1)
     \<and> (if byte_size known < ucast (width (get_type c tid) div 8)
        then \<exists>nm_pad n2.
               GetMemberNameAtIndex c ir st i ''_pad'' n1 = Some (nm_pad, n2)
               \<and> s' = (res @ [\<lparr>member_type = known_name known, member_name = nm,
                                 offset = tot, byte_length = byte_size known\<rparr>,
                               \<lparr>member_type = TypeNameWithPaddingOfSize
                                    (ucast (width (get_type c tid) div 8) - byte_size known),
                                 member_name = nm_pad,
                                 offset = tot + byte_size known,
                                 byte_length =
                                   ucast (width (get_type c tid) div 8) - byte_size known\<rparr>],
                       tot + ucast (width (get_type c tid) div 8), n2)
        else s' = (res @ [\<lparr>member_type = known_name known, member_name = nm,
                            offset = tot, byte_length = byte_size known\<rparr>],
                   tot + byte_size known, n1))"
proof -
  let ?w = "ucast (width (get_type c tid) div 8) :: size_t"
  have pad: "(?w - byte_size known \<noteq> 0) = (byte_size known < ?w)"
    using wide by auto
  have body: "ReadStructMembers_body c ir st i tid (res, tot, n) =
     (case emplace c ir st i (known_name known) [] (byte_size known) (res, tot, n) of
        None \<Rightarrow> None
      | Some s1 \<Rightarrow>
          if ?w - byte_size known \<noteq> 0
          then emplace c ir st i (TypeNameWithPaddingOfSize (?w - byte_size known)) ''_pad''
                 (?w - byte_size known) s1
          else Some s1)"
    using known shape by (simp add: ReadStructMembers_body_def Let_def split: option.splits)
  from run obtain s1 where e1: "emplace c ir st i (known_name known) [] (byte_size known) (res, tot, n) = Some s1"
    and rest: "(if ?w - byte_size known \<noteq> 0
         then emplace c ir st i (TypeNameWithPaddingOfSize (?w - byte_size known)) ''_pad''
                (?w - byte_size known) s1
         else Some s1) = Some s'"
    unfolding body by (auto split: option.splits)
  from emplace_Some [OF e1] obtain nm n1 where
    nm: "GetMemberNameAtIndex c ir st i [] n = Some (nm, n1)"
    and s1: "s1 = (res @ [\<lparr>member_type = known_name known, member_name = nm,
                            offset = tot, byte_length = byte_size known\<rparr>],
                   tot + byte_size known, n1)"
    by blast
  show ?thesis
  proof (cases "byte_size known < ?w")
    case False
    with rest pad s1 nm show ?thesis by simp
  next
    case True
    with rest pad have
      "emplace c ir st i (TypeNameWithPaddingOfSize (?w - byte_size known)) ''_pad''
         (?w - byte_size known) s1 = Some s'"
      by simp
    from emplace_Some [OF this [unfolded s1]] True nm show ?thesis
      by auto
  qed
qed

text \<open>
  Claim C4, as amended. Let a member of a struct be a recognized scalar (boolean,
  float, unsigned or signed integer, with one column and one component) whose
  declared width in whole bytes, \<open>width div 8\<close>, is at least the mapped byte size.
  Then \<open>ReadStructMembers\<close> emits, after the members of the earlier raw members
  and at the running total as offset, the mapped scalar member and, exactly when
  \<open>width div 8\<close> exceeds the mapped byte size, one immediately following padding
  member whose byte length is \<open>width div 8\<close> minus the mapped byte size; the later
  raw members continue at the running total plus \<open>width div 8\<close>.
\<close>

theorem known_scalar_member_emission:
  assumes struct: "basetype (get_type c sid) = Struct"
    and raw: "member_types (get_type c sid) = pre @ tid # post"
    and known: "ReadKnownScalarType (basetype (get_type c tid)) = Some known"
    and shape: "columns (get_type c tid) = 1" "vecsize (get_type c tid) = 1"
    and wide: "byte_size known \<le> ucast (width (get_type c tid) div 8)"
    and run: "ReadStructMembers c ir sid n = Some (ms, n')"
  shows "\<exists>ms_pre total n1 nm nm_pad n2 total'.
     ReadStructMembers_loop c ir (get_type c sid) 0 pre ([], 0, n) = Some (ms_pre, total, n1)
     \<and> ReadStructMembers_loop c ir (get_type c sid) (Suc (length pre)) post
          (ms_pre
           @ \<lparr>member_type = known_name known, member_name = nm, offset = total,
                byte_length = byte_size known\<rparr>
           # (if byte_size known < ucast (width (get_type c tid) div 8)
              then [\<lparr>member_type = TypeNameWithPaddingOfSize
                                     (ucast (width (get_type c tid) div 8) - byte_size known),
                     member_name = nm_pad,
                     offset = total + byte_size known,
                     byte_length = ucast (width (get_type c tid) div 8) - byte_size known\<rparr>]
              else []),
           total + ucast (width (get_type c tid) div 8), n2)
         = Some (ms, total', n')
     \<and> (\<exists>ms_post.
          ms = ms_pre
               @ \<lparr>member_type = known_name known, member_name = nm, offset = total,
                    byte_length = byte_size known\<rparr>
               # (if byte_size known < ucast (width (get_type c tid) div 8)
                  then [\<lparr>member_type = TypeNameWithPaddingOfSize
                                         (ucast (width (get_type c tid) div 8) - byte_size known),
                         member_name = nm_pad,
                         offset = total + byte_size known,
                         byte_length = ucast (width (get_type c tid) div 8) - byte_size known\<rparr>]
                  else [])
               @ ms_post)"
proof -
  let ?st = "get_type c sid"
  let ?w = "ucast (width (get_type c tid) div 8) :: size_t"
  from run struct raw obtain total' where
    whole: "ReadStructMembers_loop c ir ?st 0 (pre @ tid # post) ([], 0, n) = Some (ms, total', n')"
    by (auto simp: ReadStructMembers_def Let_def split: option.splits)
  then obtain ms_pre total n1 where
    pre: "ReadStructMembers_loop c ir ?st 0 pre ([], 0, n) = Some (ms_pre, total, n1)"
    and tail: "ReadStructMembers_loop c ir ?st (length pre) (tid # post) (ms_pre, total, n1)
               = Some (ms, total', n')"
    by (auto simp: ReadStructMembers_loop_append split: option.splits)
  from tail obtain s' where
    body: "ReadStructMembers_body c ir ?st (length pre) tid (ms_pre, total, n1) = Some s'"
    and post: "ReadStructMembers_loop c ir ?st (Suc (length pre)) post s' = Some (ms, total', n')"
    by (auto split: option.splits)
  from ReadStructMembers_body_known_scalar [OF known shape wide body]
  obtain nm n1' where
    s': "if byte_size known < ?w
         then \<exists>nm_pad n2.
                GetMemberNameAtIndex c ir ?st (length pre) ''_pad'' n1' = Some (nm_pad, n2)
                \<and> s' = (ms_pre @ [\<lparr>member_type = known_name known, member_name = nm,
                                     offset = total, byte_length = byte_size known\<rparr>,
                                   \<lparr>member_type = TypeNameWithPaddingOfSize (?w - byte_size known),
                                     member_name = nm_pad,
                                     offset = total + byte_size known,
                                     byte_length = ?w - byte_size known\<rparr>],
                        total + ?w, n2)
         else s' = (ms_pre @ [\<lparr>member_type = known_name known, member_name = nm,
                                offset = total, byte_length = byte_size known\<rparr>],
                    total + byte_size known, n1')"
    by blast
  show ?thesis
  proof (cases "byte_size known < ?w")
    case True
    with s' obtain nm_pad n2 where
      s'': "s' = (ms_pre @ [\<lparr>member_type = known_name known, member_name = nm,
                             offset = total, byte_length = byte_size known\<rparr>,
                           \<lparr>member_type = TypeNameWithPaddingOfSize (?w - byte_size known),
                             member_name = nm_pad,
                             offset = total + byte_size known,
                             byte_length = ?w - byte_size known\<rparr>],
                  total + ?w, n2)"
      by auto
    from ReadStructMembers_loop_grows [OF post [unfolded s'']] obtain ms_post where
      "ms = (ms_pre @ [\<lparr>member_type = known_name known, member_name = nm,
                             offset = total, byte_length = byte_size known\<rparr>,
                           \<lparr>member_type = TypeNameWithPaddingOfSize (?w - byte_size known),
                             member_name = nm_pad,
                             offset = total + byte_size known,
                             byte_length = ?w - byte_size known\<rparr>]) @ ms_post"
      by blast
    with True pre post s'' show ?thesis
      by (intro exI [of _ ms_pre] exI [of _ total] exI [of _ n1] exI [of _ nm]
          exI [of _ nm_pad] exI [of _ n2] exI [of _ total']) auto
  next
    case False
    with wide have eq: "byte_size known = ?w" by auto
    from False s' have
      s'': "s' = (ms_pre @ [\<lparr>member_type = known_name known, member_name = nm,
                             offset = total, byte_length = byte_size known\<rparr>],
                  total + byte_size known, n1')"
      by simp
    from ReadStructMembers_loop_grows [OF post [unfolded s'']] obtain ms_post where
      "ms = (ms_pre @ [\<lparr>member_type = known_name known, member_name = nm,
                             offset = total, byte_length = byte_size known\<rparr>]) @ ms_post"
      by blast
    with False pre post s'' eq show ?thesis
      by (intro exI [of _ ms_pre] exI [of _ total] exI [of _ n1] exI [of _ nm]
          exI [of _ "[]"] exI [of _ n1'] exI [of _ total']) auto
  qed
qed

theorem known_scalar_member_emission_witness:
  "basetype (get_type demo_compiler 1) = Struct
   \<and> member_types (get_type demo_compiler 1) = [2, 3] @ 4 # []
   \<and> ReadKnownScalarType (basetype (get_type demo_compiler 4))
       = Some \<lparr>known_name = ''bool'', byte_size = sizeof_bool\<rparr>
   \<and> columns (get_type demo_compiler 4) = 1 \<and> vecsize (get_type demo_compiler 4) = 1
   \<and> width (get_type demo_compiler 4) = 32
   \<and> ReadStructMembers demo_compiler demo_ir 1 0 =
       Some ([\<lparr>member_type = ''Matrix'', member_name = ''mvp'', offset = 0, byte_length = 64\<rparr>,
              \<lparr>member_type = ''Scalar'', member_name = ''scale'', offset = 64, byte_length = 4\<rparr>,
              \<lparr>member_type = ''bool'', member_name = ''unnamed_0'', offset = 68, byte_length = 1\<rparr>,
              \<lparr>member_type = ''Padding<3>'', member_name = ''unnamed_1_pad'', offset = 69,
                byte_length = 4 - sizeof_bool\<rparr>], 2)
   \<and> (\<exists>ms_pre total nm nm_pad ms_post.
         [\<lparr>member_type = ''Matrix'', member_name = ''mvp'', offset = 0, byte_length = 64\<rparr>,
          \<lparr>member_type = ''Scalar'', member_name = ''scale'', offset = 64, byte_length = 4\<rparr>,
          \<lparr>member_type = ''bool'', member_name = ''unnamed_0'', offset = 68, byte_length = 1\<rparr>,
          \<lparr>member_type = ''Padding<3>'', member_name = ''unnamed_1_pad'', offset = 69,
            byte_length = 4 - sizeof_bool\<rparr>]
         = ms_pre
           @ \<lparr>member_type = ''bool'', member_name = nm, offset = total, byte_length = sizeof_bool\<rparr>
           # [\<lparr>member_type = TypeNameWithPaddingOfSize (4 - sizeof_bool), member_name = nm_pad,
                offset = total + sizeof_bool, byte_length = 4 - sizeof_bool\<rparr>]
           @ ms_post)"
proof -
  let ?known = "\<lparr>known_name = ''bool'', byte_size = sizeof_bool\<rparr>"
  let ?ms = "[\<lparr>member_type = ''Matrix'', member_name = ''mvp'', offset = 0, byte_length = 64\<rparr>,
              \<lparr>member_type = ''Scalar'', member_name = ''scale'', offset = 64, byte_length = 4\<rparr>,
              \<lparr>member_type = ''bool'', member_name = ''unnamed_0'', offset = 68, byte_length = 1\<rparr>,
              \<lparr>member_type = ''Padding<3>'', member_name = ''unnamed_1_pad'', offset = 69,
                byte_length = 4 - sizeof_bool\<rparr>]"
  have struct: "basetype (get_type demo_compiler 1) = Struct"
    by (simp add: demo_defs eval_defs)
  have raw: "member_types (get_type demo_compiler 1) = [2, 3] @ 4 # []"
    by (simp add: demo_defs eval_defs)
  have known: "ReadKnownScalarType (basetype (get_type demo_compiler 4)) = Some ?known"
    by (simp add: demo_defs eval_defs)
  have shape: "columns (get_type demo_compiler 4) = 1" "vecsize (get_type demo_compiler 4) = 1"
    by (simp_all add: demo_defs eval_defs)
  have w: "width (get_type demo_compiler 4) = 32"
    by (simp add: demo_defs eval_defs)
  have wide: "byte_size ?known \<le> ucast (width (get_type demo_compiler 4) div 8)"
    by (simp add: w host_sizes)
  have run: "ReadStructMembers demo_compiler demo_ir 1 0 = Some (?ms, 2)"
    by (simp add: demo_defs eval_defs)
  have lt: "byte_size ?known < ucast (width (get_type demo_compiler 4) div 8)"
    by (simp add: w host_sizes)
  have w8: "(ucast (width (get_type demo_compiler 4) div 8) :: size_t) = 4"
    by (simp add: w)
  from known_scalar_member_emission [OF struct raw known shape wide run]
  have "\<exists>ms_pre total nm nm_pad ms_post.
         ?ms = ms_pre
           @ \<lparr>member_type = ''bool'', member_name = nm, offset = total, byte_length = sizeof_bool\<rparr>
           # [\<lparr>member_type = TypeNameWithPaddingOfSize (4 - sizeof_bool), member_name = nm_pad,
                offset = total + sizeof_bool, byte_length = 4 - sizeof_bool\<rparr>]
           @ ms_post"
    unfolding w8 using lt [unfolded w8] by (simp only: if_True KnownType.simps) blast
  with struct raw known shape w run show ?thesis
    by (intro conjI)
qed

text \<open>
  The claim as stated fails on a boolean declared at 12 bits: the width exceeds 8
  times the mapped byte size, and no padding member follows the \<open>bool\<close> member,
  since the excess is less than one byte.
\<close>

theorem narrow_excess_counterexample:
  "ReadKnownScalarType (basetype (get_type narrow_compiler 14))
     = Some \<lparr>known_name = ''bool'', byte_size = 1\<rparr>
   \<and> columns (get_type narrow_compiler 14) = 1 \<and> vecsize (get_type narrow_compiler 14) = 1
   \<and> 8 * 1 < unat (width (get_type narrow_compiler 14))
   \<and> member_types (get_type narrow_compiler 4) = [14]
   \<and> ReadStructMembers narrow_compiler narrow_ir 4 0 =
       Some ([\<lparr>member_type = ''bool'', member_name = ''unnamed_0'', offset = 0,
                byte_length = 1\<rparr>], 1)"
  by (simp add: narrow_defs eval_defs)

subsection \<open>Scalars narrower than their host type\<close>

text \<open>
  Claim C5: for a struct whose members are all recognized scalars, the sum of the
  emitted member byte lengths, padding included, equals the declared total byte
  length. The code breaks it when a scalar is declared narrower than its host
  type. For \<open>Flags {bool}\<close>, with the boolean of width 1, \<open>width div 8\<close> is 0
  and the unsigned subtraction \<open>0 - sizeof(bool)\<close> wraps around: a padding member
  of \<open>2^64 - 1\<close> bytes is emitted. The declared total is 0 and the member byte
  lengths add up to \<open>2^64\<close>.
\<close>

theorem flags_struct_byte_length:
  "ReflectStructDefinition narrow_compiler narrow_ir 1 0 =
     Some (Some \<lparr>struct_name = ''Flags'', struct_byte_length = 0,
                 members =
                   [\<lparr>member_type = ''bool'', member_name = ''unnamed_0'', offset = 0,
                      byte_length = 1\<rparr>,
                    \<lparr>member_type = ''Padding<18446744073709551615>'',
                      member_name = ''unnamed_1_pad'', offset = 1,
                      byte_length = 18446744073709551615\<rparr>]\<rparr>, 2)
   \<and> sum_byte_lengths
        [\<lparr>member_type = ''bool'', member_name = ''unnamed_0'', offset = 0, byte_length = 1\<rparr>,
         \<lparr>member_type = ''Padding<18446744073709551615>'', member_name = ''unnamed_1_pad'',
           offset = 1, byte_length = 18446744073709551615\<rparr>]
       = 18446744073709551616"
  by (simp add: narrow_defs eval_defs sum_byte_lengths_def)

text \<open>
  Claim C1: the total \<open>byte_length\<close> of every struct definition returned by
  \<open>ReflectStructDefinition\<close> equals the sum of the \<open>byte_length\<close> fields of its
  members. The code breaks it by the same wrap-around: \<open>Block {mat4; bool; vec4}\<close>
  has the declared total 80, and its members' byte lengths add up to
  \<open>2^64 + 80\<close>.
\<close>

theorem block_struct_byte_length:
  "ReflectStructDefinition narrow_compiler narrow_ir 2 0 =
     Some (Some \<lparr>struct_name = ''Block'', struct_byte_length = 80,
                 members =
                   [\<lparr>member_type = ''Matrix'', member_name = ''unnamed_0'', offset = 0,
                      byte_length = 64\<rparr>,
                    \<lparr>member_type = ''bool'', member_name = ''unnamed_1'', offset = 64,
                      byte_length = 1\<rparr>,
                    \<lparr>member_type = ''Padding<18446744073709551615>'',
                      member_name = ''unnamed_2_pad'', offset = 65,
                      byte_length = 18446744073709551615\<rparr>,
                    \<lparr>member_type = ''Vector4'', member_name = ''unnamed_3'', offset = 64,
                      byte_length = 16\<rparr>]\<rparr>, 4)
   \<and> sum_byte_lengths
        [\<lparr>member_type = ''Matrix'', member_name = ''unnamed_0'', offset = 0, byte_length = 64\<rparr>,
         \<lparr>member_type = ''bool'', member_name = ''unnamed_1'', offset = 64, byte_length = 1\<rparr>,
         \<lparr>member_type = ''Padding<18446744073709551615>'', member_name = ''unnamed_2_pad'',
           offset = 65, byte_length = 18446744073709551615\<rparr>,
         \<lparr>member_type = ''Vector4'', member_name = ''unnamed_3'', offset = 64,
           byte_length = 16\<rparr>]
       = 18446744073709551696"
  by (simp add: narrow_defs eval_defs sum_byte_lengths_def)

text \<open>
  Claim C2: in every member list the first offset is 0 and each member starts where
  the one before it ends. The code breaks it by the same wrap-around: in
  \<open>Pair {bool; float}\<close> the padding member starts at 1 and is \<open>2^64 - 1\<close> bytes
  long, and the member after it is at offset 0, on top of the \<open>bool\<close> member.
\<close>

theorem pair_struct_offsets:
  "ReadStructMembers narrow_compiler narrow_ir 3 0 =
     Some ([\<lparr>member_type = ''bool'', member_name = ''unnamed_0'', offset = 0, byte_length = 1\<rparr>,
            \<lparr>member_type = ''Padding<18446744073709551615>'', member_name = ''unnamed_1_pad'',
              offset = 1, byte_length = 18446744073709551615\<rparr>,
            \<lparr>member_type = ''Scalar'', member_name = ''unnamed_2'', offset = 0,
              byte_length = 4\<rparr>], 3)
   \<and> \<not> gap_free
        [\<lparr>member_type = ''bool'', member_name = ''unnamed_0'', offset = 0, byte_length = 1\<rparr>,
         \<lparr>member_type = ''Padding<18446744073709551615>'', member_name = ''unnamed_1_pad'',
           offset = 1, byte_length = 18446744073709551615\<rparr>,
         \<lparr>member_type = ''Scalar'', member_name = ''unnamed_2'', offset = 0,
           byte_length = 4\<rparr>]
   \<and> unat (offset \<lparr>member_type = ''Padding<18446744073709551615>'',
                      member_name = ''unnamed_1_pad'', offset = 1,
                      byte_length = 18446744073709551615\<rparr>)
       + unat (byte_length \<lparr>member_type = ''Padding<18446744073709551615>'',
                      member_name = ''unnamed_1_pad'', offset = 1,
                      byte_length = 18446744073709551615\<rparr>)
       = 18446744073709551616"
  by (simp add: narrow_defs eval_defs gap_free_def)

subsection \<open>The layout of the per-vertex structure\<close>

lemma unat_vertex_byte_length_bound:
  "unat (vertex_byte_length (VertexTypeFromInputResource c r)) < 2 ^ 29"
proof -
  let ?t = "get_type c (res_type_id r)"
  let ?p = "columns ?t * vecsize ?t * width ?t"
  have "unat ?p < 2 ^ 32" using unsigned_less [of ?p] by simp
  then show ?thesis
    by (simp add: VertexTypeFromInputResource_def Let_def unat_ucast_32_64 unat_div)
qed

lemma per_vertex_loop_placed:
  "per_vertex_loop c inputs xs struc = Some struc' \<Longrightarrow>
   placed_from 0 (members struc) \<Longrightarrow>
   sum_byte_lengths (members struc) = unat (struct_byte_length struc) \<Longrightarrow>
   unat (struct_byte_length struc) + length xs * 2 ^ 29 < 2 ^ 64 \<Longrightarrow>
   placed_from 0 (members struc')
   \<and> sum_byte_lengths (members struc') = unat (struct_byte_length struc')
   \<and> struct_name struc' = struct_name struc
   \<and> length (members struc') = length (members struc) + length xs"
proof (induction xs arbitrary: struc)
  case Nil
  then show ?case by simp
next
  case (Cons i xs)
  from Cons.prems(1) obtain r where
    r: "input_for_location c inputs (of_nat i) = Some r"
    by (auto split: option.splits)
  let ?v = "VertexTypeFromInputResource c r"
  let ?m = "\<lparr>member_type = vertex_type_name ?v, member_name = variable_name ?v,
             offset = struct_byte_length struc, byte_length = vertex_byte_length ?v\<rparr>"
  let ?next = "struc\<lparr>struct_byte_length := struct_byte_length struc + vertex_byte_length ?v,
                      members := members struc @ [?m]\<rparr>"
  have run: "per_vertex_loop c inputs xs ?next = Some struc'"
    using Cons.prems(1) r by (simp add: Let_def)
  have b: "unat (vertex_byte_length ?v) < 2 ^ 29"
    by (rule unat_vertex_byte_length_bound)
  have u: "unat (struct_byte_length struc + vertex_byte_length ?v)
           = unat (struct_byte_length struc) + unat (vertex_byte_length ?v)"
    using Cons.prems(4) b by (intro unat_add_no_wrap) simp
  have p: "placed_from 0 (members ?next)"
    using Cons.prems(2,3) by (simp add: placed_from_append)
  have s: "sum_byte_lengths (members ?next) = unat (struct_byte_length ?next)"
    using Cons.prems(3) u by (simp add: sum_byte_lengths_simps)
  have f: "unat (struct_byte_length ?next) + length xs * 2 ^ 29 < 2 ^ 64"
    using Cons.prems(4) b u by simp
  from Cons.IH [OF run p s f] show ?case by simp
qed

text \<open>
  Every synthesized per-vertex structure is named \<open>PerVertexData\<close>, has one member
  per input, has no gaps, with the first offset 0, and has the sum of its members'
  byte lengths as byte length, all in natural numbers.
\<close>

lemma ReflectPerVertexStructDefinition_layout:
  assumes "ReflectPerVertexStructDefinition c inputs = Some struc"
  shows "gap_free (members struc)
     \<and> sum_byte_lengths (members struc) = unat (struct_byte_length struc)
     \<and> struct_name struc = ''PerVertexData''
     \<and> length (members struc) = length inputs"
proof -
  let ?locs = "set (declared_locations c inputs)"
  let ?empty = "\<lparr>struct_name = ''PerVertexData'', struct_byte_length = 0, members = []\<rparr>"
  from assms have d: "distinct (declared_locations c inputs)"
    and run: "per_vertex_loop c inputs [0..<card ?locs] ?empty = Some struc"
    by (auto simp: ReflectPerVertexStructDefinition_def collect_locations_eq
        split: if_splits)
  have card: "card ?locs = length inputs"
    using distinct_card [OF d] by (simp add: length_declared_locations)
  have "card ?locs * 2 ^ 29 \<le> 2 ^ 32 * 2 ^ 29"
    using card_word32_le [of ?locs] by simp
  then have fits: "unat (struct_byte_length ?empty) + length [0..<card ?locs] * 2 ^ 29 < 2 ^ 64"
    by simp
  have "placed_from 0 (members ?empty)"
    and "sum_byte_lengths (members ?empty) = unat (struct_byte_length ?empty)"
    by (simp_all add: sum_byte_lengths_simps)
  from per_vertex_loop_placed [OF run this fits] card show ?thesis
    by (simp add: placed_from_gap_free)
qed

end
